theory Spec2Isabelle
  imports Complex_Main
begin

section \<open>Data model: a pandas DataFrame as the quality engine reads it\<close>

text \<open>
  \<^verbatim>\<open>assess_data_quality(df)\<close> in \<^verbatim>\<open>src/data_quality.py\<close> receives a pandas
  DataFrame. The model follows the table of the specification: a number of rows (the
  length of the index) and an ordered list of labelled columns, each of dtype
  \<^verbatim>\<open>int64\<close>, \<^verbatim>\<open>float64\<close> or \<^verbatim>\<open>object\<close>.

  \<^item> Text (a Python \<^verbatim>\<open>str\<close>) is a list of Unicode code points, so \<^verbatim>\<open>len\<close> counts
    code points.
  \<^item> A column label is text, or an integer: \<^verbatim>\<open>load_data\<close> builds integer labels
    from a JSON list of lists and from numeric spreadsheet headers.
  \<^item> A \<^verbatim>\<open>float64\<close> cell is a finite number, an infinity, or NaN; pandas treats NaN as
    the missing value of a float column. Finite numbers are exact reals here: the
    rounding of IEEE arithmetic is not modelled, except in the products that the
    thresholds compare with (see \<open>float_product\<close> below).
  \<^item> An \<^verbatim>\<open>int64\<close> column has no missing cell.
  \<^item> An \<^verbatim>\<open>object\<close> column holds text or a missing cell, which is \<^verbatim>\<open>None\<close> or
    NaN; \<^verbatim>\<open>str(v)\<close> of a text value is the value itself.
\<close>

type_synonym pystr = "nat list"

text \<open>A literal of ASCII characters as text.\<close>

definition lit :: "string \<Rightarrow> pystr" where
  "lit s = map of_char s"

datatype label = StrLabel pystr | IntLabel int

datatype fl = Fin real | PInf | NInf | NaN

datatype obj = Str pystr | PyNone | PyNaN

datatype coldata =
    Int64 "int list"
  | Float64 "fl list"
  | Object "obj list"

record column =
  col_name :: label
  col_data :: coldata

record table =
  nrows :: nat
  columns :: "column list"

fun col_len :: "coldata \<Rightarrow> nat" where
  "col_len (Int64 xs) = length xs"
| "col_len (Float64 xs) = length xs"
| "col_len (Object xs) = length xs"

text \<open>Every column of a DataFrame has one cell per row of the index.\<close>

definition wf_table :: "table \<Rightarrow> bool" where
  "wf_table df = list_all (\<lambda>c. col_len (col_data c) = nrows df) (columns df)"

fun is_numeric :: "coldata \<Rightarrow> bool" where
  "is_numeric (Int64 _) = True"
| "is_numeric (Float64 _) = True"
| "is_numeric (Object _) = False"

fun is_object :: "coldata \<Rightarrow> bool" where
  "is_object (Object _) = True"
| "is_object _ = False"

fun dtype_str :: "coldata \<Rightarrow> pystr" where
  "dtype_str (Int64 _) = lit ''int64''"
| "dtype_str (Float64 _) = lit ''float64''"
| "dtype_str (Object _) = lit ''object''"

subsection \<open>Errors\<close>

text \<open>
  The function has no \<^verbatim>\<open>raise\<close> of its own. What can raise inside it is
  \<^item> a division by zero;
  \<^item> \<^verbatim>\<open>df[col].dtype\<close>: for a label that occurs more than once \<^verbatim>\<open>df[col]\<close> is a
    DataFrame, which has no attribute \<^verbatim>\<open>dtype\<close>;
  \<^item> \<^verbatim>\<open>col.lower()\<close> (line 142): an integer label has no attribute \<^verbatim>\<open>lower\<close>.
\<close>

datatype error = ZeroDivisionError | AttributeError | KeyError

definition bind_e :: "error + 'a \<Rightarrow> ('a \<Rightarrow> error + 'b) \<Rightarrow> error + 'b" where
  "bind_e m f = (case m of Inl e \<Rightarrow> Inl e | Inr x \<Rightarrow> f x)"

definition py_div :: "real \<Rightarrow> real \<Rightarrow> error + real" where
  "py_div a b = (if b = 0 then Inl ZeroDivisionError else Inr (a / b))"

text \<open>\<^verbatim>\<open>df[col]\<close> followed by an attribute of a Series.\<close>

definition getitem :: "table \<Rightarrow> label \<Rightarrow> error + column" where
  "getitem df col =
     (case filter (\<lambda>c. col_name c = col) (columns df) of
        [] \<Rightarrow> Inl KeyError
      | [c] \<Rightarrow> Inr c
      | _ \<Rightarrow> Inl AttributeError)"

fun traverse :: "('a \<Rightarrow> error + 'b) \<Rightarrow> 'a list \<Rightarrow> error + 'b list" where
  "traverse f [] = Inr []"
| "traverse f (x # xs) =
     (case f x of
        Inl e \<Rightarrow> Inl e
      | Inr y \<Rightarrow> (case traverse f xs of Inl e \<Rightarrow> Inl e | Inr ys \<Rightarrow> Inr (y # ys)))"

text \<open>
  Every loop of the function is \<^verbatim>\<open>for col in df.columns\<close> and starts by reading
  \<^verbatim>\<open>df[col]\<close>. The lookups of all labels, in column order, are done once here; each
  analyzer then runs over the Series they returned. The first loop meets the first
  failing lookup before anything else can fail, so the error is the same.
\<close>

definition series_of :: "table \<Rightarrow> error + column list" where
  "series_of df = traverse (getitem df) (map col_name (columns df))"

subsection \<open>Missing values\<close>

fun is_missing :: "obj \<Rightarrow> bool" where
  "is_missing (Str s) = False"
| "is_missing PyNone = True"
| "is_missing PyNaN = True"

text \<open>\<^verbatim>\<open>s.isnull().sum()\<close> of one Series.\<close>

fun isnull_sum :: "coldata \<Rightarrow> nat" where
  "isnull_sum (Int64 xs) = 0"
| "isnull_sum (Float64 xs) = length (filter (\<lambda>v. v = NaN) xs)"
| "isnull_sum (Object xs) = length (filter is_missing xs)"

text \<open>\<^verbatim>\<open>s.dropna()\<close> of a numeric Series; not used on an object column.\<close>

fun dropna_num :: "coldata \<Rightarrow> fl list" where
  "dropna_num (Int64 xs) = map (\<lambda>i. Fin (real_of_int i)) xs"
| "dropna_num (Float64 xs) = filter (\<lambda>v. v \<noteq> NaN) xs"
| "dropna_num (Object xs) = []"

text \<open>\<^verbatim>\<open>s.dropna()\<close> of an object Series.\<close>

fun obj_text :: "obj \<Rightarrow> pystr option" where
  "obj_text (Str s) = Some s"
| "obj_text PyNone = None"
| "obj_text PyNaN = None"

definition dropna_obj :: "obj list \<Rightarrow> pystr list" where
  "dropna_obj xs = List.map_filter obj_text xs"

subsection \<open>Float values\<close>

text \<open>
  Comparison and arithmetic of \<^verbatim>\<open>float64\<close> values with the IEEE rules for the
  infinities and NaN: a comparison with NaN is false, \<open>inf - inf\<close> and \<open>0 * inf\<close>
  are NaN.
\<close>

fun fl_lt :: "fl \<Rightarrow> fl \<Rightarrow> bool" where
  "fl_lt NaN _ = False"
| "fl_lt _ NaN = False"
| "fl_lt (Fin a) (Fin b) = (a < b)"
| "fl_lt (Fin a) PInf = True"
| "fl_lt (Fin a) NInf = False"
| "fl_lt PInf _ = False"
| "fl_lt NInf NInf = False"
| "fl_lt NInf _ = True"

definition fl_gt :: "fl \<Rightarrow> fl \<Rightarrow> bool" where
  "fl_gt a b = fl_lt b a"

definition fl_le :: "fl \<Rightarrow> fl \<Rightarrow> bool" where
  "fl_le a b = (a \<noteq> NaN \<and> b \<noteq> NaN \<and> (fl_lt a b \<or> a = b))"

definition fl_ge :: "fl \<Rightarrow> fl \<Rightarrow> bool" where
  "fl_ge a b = fl_le b a"

fun fl_neg :: "fl \<Rightarrow> fl" where
  "fl_neg (Fin a) = Fin (- a)"
| "fl_neg PInf = NInf"
| "fl_neg NInf = PInf"
| "fl_neg NaN = NaN"

fun fl_add :: "fl \<Rightarrow> fl \<Rightarrow> fl" where
  "fl_add NaN _ = NaN"
| "fl_add _ NaN = NaN"
| "fl_add (Fin a) (Fin b) = Fin (a + b)"
| "fl_add (Fin a) b = b"
| "fl_add PInf NInf = NaN"
| "fl_add NInf PInf = NaN"
| "fl_add a _ = a"

definition fl_sub :: "fl \<Rightarrow> fl \<Rightarrow> fl" where
  "fl_sub a b = fl_add a (fl_neg b)"

fun fl_mul :: "fl \<Rightarrow> fl \<Rightarrow> fl" where
  "fl_mul NaN _ = NaN"
| "fl_mul _ NaN = NaN"
| "fl_mul (Fin a) (Fin b) = Fin (a * b)"
| "fl_mul (Fin a) b = (if a = 0 then NaN else if 0 < a then b else fl_neg b)"
| "fl_mul a (Fin b) = (if b = 0 then NaN else if 0 < b then a else fl_neg a)"
| "fl_mul a b = (if a = b then PInf else NInf)"

subsection \<open>Library functions\<close>

text \<open>
  Functions and data of Python and pandas that the engine uses and whose definitions are
  not part of the repository. They are parameters of the model:
  \<^item> \<open>float_parses s\<close>: \<^verbatim>\<open>float(s)\<close> returns (does not raise \<^verbatim>\<open>ValueError\<close>);
  \<^item> \<open>to_datetime ss\<close>: \<^verbatim>\<open>pd.to_datetime(ss, errors='coerce')\<close>, see below;
  \<^item> \<open>quantile vs q\<close>: \<^verbatim>\<open>Series.quantile(q)\<close> of the values \<open>vs\<close>;
  \<^item> \<open>str_float v\<close>: \<^verbatim>\<open>str(v)\<close> of a float;
  \<^item> \<open>float_product n c\<close>: the IEEE double \<^verbatim>\<open>n * c\<close> of an integer \<open>n\<close> and the
    float literal \<open>c\<close>, as the thresholds \<^verbatim>\<open>len(...) * 0.2\<close>, \<^verbatim>\<open>* 0.8\<close>,
    \<^verbatim>\<open>* 0.7\<close> and \<^verbatim>\<open>* 0.5\<close> compute it;
  \<^item> \<open>unicode_lower s\<close>: \<^verbatim>\<open>s.lower()\<close> of a text with a character outside ASCII;
  \<^item> \<open>unicode_word c\<close>: a code point outside ASCII is a word character of \<^verbatim>\<open>re\<close>
    (it matches \<^verbatim>\<open>\w\<close>);
  \<^item> \<open>unicode_digit c\<close>: the value of a code point outside ASCII that is a decimal
    digit (it matches \<^verbatim>\<open>\d\<close>, and \<^verbatim>\<open>int\<close> reads it).

  What \<^verbatim>\<open>pd.to_datetime\<close> gives the timeliness analyzer is one of three things: the
  call raises; it returns datetimes, of which the analyzer reads the year of each parsed
  date (\<open>None\<close> for \<^verbatim>\<open>NaT\<close>); or it returns a Series that is not of a datetime
  dtype, with some number of non-null entries, on which \<^verbatim>\<open>.dt\<close> raises.
\<close>

datatype dt_result = DtRaises | DtDates "int option list" | DtNotDatetime nat

record pylib =
  float_parses :: "pystr \<Rightarrow> bool"
  to_datetime :: "pystr list \<Rightarrow> dt_result"
  quantile :: "fl list \<Rightarrow> real \<Rightarrow> fl"
  str_float :: "fl \<Rightarrow> pystr"
  float_product :: "nat \<Rightarrow> real \<Rightarrow> real"
  unicode_lower :: "pystr \<Rightarrow> pystr"
  unicode_word :: "nat \<Rightarrow> bool"
  unicode_digit :: "nat \<Rightarrow> nat option"

subsection \<open>Text\<close>

fun str_nat :: "nat \<Rightarrow> pystr" where
  "str_nat n = (if n < 10 then [48 + n] else str_nat (n div 10) @ [48 + n mod 10])"

declare str_nat.simps [simp del]

text \<open>\<^verbatim>\<open>str(i)\<close> of an integer.\<close>

definition str_int :: "int \<Rightarrow> pystr" where
  "str_int i = (if i < 0 then of_char CHR ''-'' # str_nat (nat (- i)) else str_nat (nat i))"

text \<open>\<^verbatim>\<open>str(col)\<close> of a column label.\<close>

fun str_label :: "label \<Rightarrow> pystr" where
  "str_label (StrLabel s) = s"
| "str_label (IntLabel i) = str_int i"

text \<open>\<^verbatim>\<open>s.dropna().astype(str)\<close> of a Series of any dtype.\<close>

fun dropna_str :: "pylib \<Rightarrow> coldata \<Rightarrow> pystr list" where
  "dropna_str lib (Int64 xs) = map str_int xs"
| "dropna_str lib (Float64 xs) = map (str_float lib) (filter (\<lambda>v. v \<noteq> NaN) xs)"
| "dropna_str lib (Object xs) = dropna_obj xs"

definition is_ascii :: "nat \<Rightarrow> bool" where
  "is_ascii c = (c < 128)"

definition is_upper :: "nat \<Rightarrow> bool" where
  "is_upper c = (65 \<le> c \<and> c \<le> 90)"

definition is_lower :: "nat \<Rightarrow> bool" where
  "is_lower c = (97 \<le> c \<and> c \<le> 122)"

definition is_digit :: "nat \<Rightarrow> bool" where
  "is_digit c = (48 \<le> c \<and> c \<le> 57)"

text \<open>\<^verbatim>\<open>[a-zA-Z]\<close>: the letters of ASCII.\<close>

definition is_alpha :: "nat \<Rightarrow> bool" where
  "is_alpha c = (is_upper c \<or> is_lower c)"

text \<open>\<^verbatim>\<open>\w\<close> of a regular expression on a \<^verbatim>\<open>str\<close>.\<close>

definition is_word :: "pylib \<Rightarrow> nat \<Rightarrow> bool" where
  "is_word lib c =
     (if is_ascii c then is_alpha c \<or> is_digit c \<or> c = of_char CHR ''_''
      else unicode_word lib c)"

text \<open>\<^verbatim>\<open>\d\<close> of a regular expression on a \<^verbatim>\<open>str\<close>, with the digit's value.\<close>

definition decimal_digit :: "pylib \<Rightarrow> nat \<Rightarrow> nat option" where
  "decimal_digit lib c =
     (if is_ascii c then (if is_digit c then Some (c - 48) else None)
      else unicode_digit lib c)"

definition lower_char :: "nat \<Rightarrow> nat" where
  "lower_char c = (if is_upper c then c + 32 else c)"

text \<open>\<^verbatim>\<open>s.lower()\<close>.\<close>

definition lower :: "pylib \<Rightarrow> pystr \<Rightarrow> pystr" where
  "lower lib s = (if list_all is_ascii s then map lower_char s else unicode_lower lib s)"

fun starts_with :: "pystr \<Rightarrow> pystr \<Rightarrow> bool" where
  "starts_with [] s = True"
| "starts_with (p # ps) [] = False"
| "starts_with (p # ps) (c # cs) = (p = c \<and> starts_with ps cs)"

text \<open>\<^verbatim>\<open>sub in s\<close> of two strings.\<close>

fun contains :: "pystr \<Rightarrow> pystr \<Rightarrow> bool" where
  "contains sub [] = (sub = [])"
| "contains sub (c # cs) = (starts_with sub (c # cs) \<or> contains sub cs)"

subsection \<open>Regular expressions\<close>

text \<open>
  The email pattern of the consistency check is matched by derivatives. An atom is a
  character class.
\<close>

datatype rx = Nul | Eps | Atom "nat \<Rightarrow> bool" | Alt rx rx | Seq rx rx | Star rx

fun nullable :: "rx \<Rightarrow> bool" where
  "nullable Nul = False"
| "nullable Eps = True"
| "nullable (Atom p) = False"
| "nullable (Alt r s) = (nullable r \<or> nullable s)"
| "nullable (Seq r s) = (nullable r \<and> nullable s)"
| "nullable (Star r) = True"

fun deriv :: "nat \<Rightarrow> rx \<Rightarrow> rx" where
  "deriv c Nul = Nul"
| "deriv c Eps = Nul"
| "deriv c (Atom p) = (if p c then Eps else Nul)"
| "deriv c (Alt r s) = Alt (deriv c r) (deriv c s)"
| "deriv c (Seq r s) =
     (if nullable r then Alt (Seq (deriv c r) s) (deriv c s) else Seq (deriv c r) s)"
| "deriv c (Star r) = Seq (deriv c r) (Star r)"

fun derivs :: "pystr \<Rightarrow> rx \<Rightarrow> rx" where
  "derivs [] r = r"
| "derivs (c # cs) r = derivs cs (deriv c r)"

definition matches :: "rx \<Rightarrow> pystr \<Rightarrow> bool" where
  "matches r s = nullable (derivs s r)"

text \<open>\<open>r+\<close> and \<open>r{2,}\<close>.\<close>

definition one_or_more :: "rx \<Rightarrow> rx" where
  "one_or_more r = Seq r (Star r)"

definition two_or_more :: "rx \<Rightarrow> rx" where
  "two_or_more r = Seq r (Seq r (Star r))"

text \<open>
  \<^verbatim>\<open>re.match('^' + r + '$', s)\<close>: Python's \<^verbatim>\<open>$\<close> matches at the end of the string and
  also just before a newline that ends the string.
\<close>

definition re_match_anchored :: "rx \<Rightarrow> pystr \<Rightarrow> bool" where
  "re_match_anchored r s =
     (matches r s \<or> (s \<noteq> [] \<and> last s = 10 \<and> matches r (butlast s)))"

text \<open>\<^verbatim>\<open>[a-zA-Z0-9._%+-]\<close> and \<^verbatim>\<open>[a-zA-Z0-9.-]\<close>.\<close>

definition local_class :: "nat \<Rightarrow> bool" where
  "local_class c = (is_alpha c \<or> is_digit c \<or> c \<in> set (lit ''._%+-''))"

definition domain_class :: "nat \<Rightarrow> bool" where
  "domain_class c = (is_alpha c \<or> is_digit c \<or> c \<in> set (lit ''.-''))"

text \<open>\<^verbatim>\<open>[a-zA-Z0-9._%+-]+@[a-zA-Z0-9.-]+\.[a-zA-Z]{2,}\<close>, between \<^verbatim>\<open>^\<close> and \<^verbatim>\<open>$\<close>.\<close>

definition email_pattern :: rx where
  "email_pattern =
     Seq (one_or_more (Atom local_class))
       (Seq (Atom (\<lambda>c. c = of_char CHR ''@''))
         (Seq (one_or_more (Atom domain_class))
           (Seq (Atom (\<lambda>c. c = of_char CHR ''.''))
             (two_or_more (Atom is_alpha)))))"

text \<open>
  \<^verbatim>\<open>re.search(r'\b(19|20)\d{2}\b', s)\<close> followed by \<^verbatim>\<open>int\<close> of the match: the
  leftmost \<^verbatim>\<open>19\<close> or \<^verbatim>\<open>20\<close> followed by two decimal digits, with a word
  boundary before and after the four, as an integer. \<open>prev\<close> says that the character
  before is a word character; the first of the four is one, so the boundary before them
  is there exactly when \<open>prev\<close> is false.
\<close>

fun year_at :: "pylib \<Rightarrow> pystr \<Rightarrow> int option" where
  "year_at lib (a # b # c # d # rest) =
     (if ((a = of_char CHR ''1'' \<and> b = of_char CHR ''9'')
          \<or> (a = of_char CHR ''2'' \<and> b = of_char CHR ''0''))
         \<and> is_word lib d \<noteq> (case rest of [] \<Rightarrow> False | e # _ \<Rightarrow> is_word lib e)
      then (case (decimal_digit lib c, decimal_digit lib d) of
              (Some x, Some y) \<Rightarrow>
                Some (1000 * int (a - 48) + 100 * int (b - 48) + 10 * int x + int y)
            | _ \<Rightarrow> None)
      else None)"
| "year_at lib _ = None"

fun search_year :: "pylib \<Rightarrow> bool \<Rightarrow> pystr \<Rightarrow> int option" where
  "search_year lib prev [] = None"
| "search_year lib prev (c # cs) =
     (if prev then search_year lib (is_word lib c) cs
      else (case year_at lib (c # cs) of
              Some y \<Rightarrow> Some y
            | None \<Rightarrow> search_year lib (is_word lib c) cs))"

section \<open>The assessment\<close>

text \<open>
  \<^verbatim>\<open>total_cells = total_rows * total_columns if total_rows * total_columns > 0 else 1\<close>
\<close>

definition total_cells :: "table \<Rightarrow> nat" where
  "total_cells df =
     (if nrows df * length (columns df) > 0 then nrows df * length (columns df) else 1)"

subsection \<open>1. Completeness\<close>

text \<open>\<^verbatim>\<open>df.isnull().sum().sum()\<close>: the missing cells of each column, summed.\<close>

definition missing_values_of :: "table \<Rightarrow> nat" where
  "missing_values_of df = sum_list (map (\<lambda>c. isnull_sum (col_data c)) (columns df))"

definition missing_percentage_of :: "table \<Rightarrow> error + real" where
  "missing_percentage_of df =
     bind_e (py_div (real (missing_values_of df)) (real (total_cells df)))
       (\<lambda>q. Inr (q * 100))"

subsection \<open>2. Consistency\<close>

text \<open>
  Mixed types, for an object column only: among the first 100 non-missing values, the
  number that parse as a float lies strictly between the float products of the sample
  size with \<^verbatim>\<open>0.2\<close> and with \<^verbatim>\<open>0.8\<close>.
\<close>

definition type_inconsistent :: "pylib \<Rightarrow> coldata \<Rightarrow> bool" where
  "type_inconsistent lib d =
     (case d of
        Object xs \<Rightarrow>
          (let non_null_values = dropna_obj xs;
               sample = take 100 non_null_values;
               numeric_count = length (filter (float_parses lib) sample)
           in non_null_values \<noteq> []
              \<and> real numeric_count > float_product lib (length sample) (2 / 10)
              \<and> real numeric_count < float_product lib (length sample) (8 / 10))
      | _ \<Rightarrow> False)"

text \<open>
  The email check, for a column of any dtype: it runs when the first non-missing value, as
  a string, contains \<^verbatim>\<open>@\<close>, and counts the values that do not match the pattern.
\<close>

definition invalid_emails :: "pylib \<Rightarrow> coldata \<Rightarrow> nat" where
  "invalid_emails lib d =
     (case dropna_str lib d of
        [] \<Rightarrow> 0
      | v # vs \<Rightarrow>
          (if of_char CHR ''@'' \<in> set v
           then length (filter (\<lambda>s. \<not> re_match_anchored email_pattern s) (v # vs))
           else 0))"

definition consistency_issues_of :: "pylib \<Rightarrow> column list \<Rightarrow> nat" where
  "consistency_issues_of lib cols = sum_list (map (\<lambda>c. invalid_emails lib (col_data c)) cols)"

definition type_inconsistencies_of :: "pylib \<Rightarrow> column list \<Rightarrow> nat" where
  "type_inconsistencies_of lib cols =
     length (filter (\<lambda>c. type_inconsistent lib (col_data c)) cols)"

definition consistency_score_of :: "pylib \<Rightarrow> table \<Rightarrow> column list \<Rightarrow> error + real" where
  "consistency_score_of lib df cols =
     bind_e (py_div (real (consistency_issues_of lib cols)) (real (total_cells df)))
       (\<lambda>q. Inr (max 0 (100 - q * 100 - real (type_inconsistencies_of lib cols) * 10)))"

subsection \<open>3. Uniqueness\<close>

text \<open>
  \<^verbatim>\<open>Series.duplicated()\<close> marks a value that equals an earlier one; the first
  occurrence is not marked. NaN equals NaN and \<^verbatim>\<open>None\<close> equals \<^verbatim>\<open>None\<close>, and the
  two are different values.
\<close>

fun duplicated :: "'a list \<Rightarrow> 'a list \<Rightarrow> bool list" where
  "duplicated seen [] = []"
| "duplicated seen (x # xs) = (x \<in> set seen) # duplicated (x # seen) xs"

definition duplicated_sum :: "'a list \<Rightarrow> nat" where
  "duplicated_sum xs = length (filter (\<lambda>b. b) (duplicated [] xs))"

datatype cell = CInt int | CFloat fl | CObj obj

fun cells :: "coldata \<Rightarrow> cell list" where
  "cells (Int64 xs) = map CInt xs"
| "cells (Float64 xs) = map CFloat xs"
| "cells (Object xs) = map CObj xs"

text \<open>
  \<^verbatim>\<open>DataFrame.duplicated()\<close> (pandas 1.5 and later): of a frame with no column it is
  the empty Series, whatever the length of the index; of a frame with one column it is
  \<^verbatim>\<open>Series.duplicated()\<close> of that column; otherwise every column is factorized, which
  makes the missing values of a column one value, and the rows of codes are compared.
\<close>

fun frame_key :: "cell \<Rightarrow> cell" where
  "frame_key (CObj PyNone) = CObj PyNaN"
| "frame_key c = c"

definition row_cells :: "table \<Rightarrow> coldata \<Rightarrow> cell list" where
  "row_cells df d = (if length (columns df) = 1 then cells d else map frame_key (cells d))"

definition rows :: "table \<Rightarrow> cell list list" where
  "rows df =
     (if columns df = [] then []
      else map (\<lambda>i. map (\<lambda>c. row_cells df (col_data c) ! i) (columns df)) [0..<nrows df])"

definition duplicate_rows_of :: "table \<Rightarrow> nat" where
  "duplicate_rows_of df = duplicated_sum (rows df)"

definition duplicate_percentage_of :: "table \<Rightarrow> error + real" where
  "duplicate_percentage_of df =
     (if nrows df > 0
      then bind_e (py_div (real (duplicate_rows_of df)) (real (nrows df))) (\<lambda>q. Inr (q * 100))
      else Inr 0)"

fun column_duplicates :: "coldata \<Rightarrow> nat" where
  "column_duplicates (Object xs) = duplicated_sum xs"
| "column_duplicates _ = 0"

definition duplicate_values_count_of :: "column list \<Rightarrow> nat" where
  "duplicate_values_count_of cols = sum_list (map (\<lambda>c. column_duplicates (col_data c)) cols)"

definition uniqueness_score_of :: "table \<Rightarrow> column list \<Rightarrow> error + real" where
  "uniqueness_score_of df cols =
     bind_e (duplicate_percentage_of df) (\<lambda>duplicate_percentage.
     bind_e (py_div (real (duplicate_values_count_of cols)) (real (total_cells df))) (\<lambda>q.
       Inr (max 0 (100 - duplicate_percentage - q * 50))))"

subsection \<open>4. Validity\<close>

definition inf_count :: "fl list \<Rightarrow> nat" where
  "inf_count vs = length (filter (\<lambda>v. v = PInf \<or> v = NInf) vs)"

definition negative_count :: "fl list \<Rightarrow> nat" where
  "negative_count vs = length (filter (\<lambda>v. fl_lt v (Fin 0)) vs)"

text \<open>
  \<^verbatim>\<open>col.lower()\<close> of line 142, called on the label itself: an integer has no such
  method.
\<close>

fun lower_of_label :: "pylib \<Rightarrow> label \<Rightarrow> error + pystr" where
  "lower_of_label lib (StrLabel s) = Inr (lower lib s)"
| "lower_of_label lib (IntLabel i) = Inl AttributeError"

text \<open>
  \<^verbatim>\<open>'age' in col.lower() or 'count' in col.lower() or 'quantity' in col.lower()\<close>,
  given the lowered label.
\<close>

definition has_quantity_keyword :: "pystr \<Rightarrow> bool" where
  "has_quantity_keyword col_lower =
     (contains (lit ''age'') col_lower \<or> contains (lit ''count'') col_lower
      \<or> contains (lit ''quantity'') col_lower)"


text \<open>
  The issues of one column, or the error it raises. A column with no non-missing value is
  skipped (\<^verbatim>\<open>continue\<close>) before its label is read.
\<close>

definition validity_issues_col :: "pylib \<Rightarrow> column \<Rightarrow> error + nat" where
  "validity_issues_col lib c =
     (case col_data c of
        Object xs \<Rightarrow>
          (let non_null_values = dropna_obj xs in
           if non_null_values = [] then Inr 0
           else if Max (set (map length non_null_values)) > 1000
                then Inr (length (filter (\<lambda>s. length s > 1000) non_null_values))
                else Inr 0)
      | d \<Rightarrow>
          (let non_null_values = dropna_num d in
           if non_null_values = [] then Inr 0
           else bind_e (lower_of_label lib (col_name c)) (\<lambda>col_lower.
                  Inr (inf_count non_null_values
                       + (if has_quantity_keyword col_lower
                          then negative_count non_null_values else 0)))))"

text \<open>The loop over the columns stops at the first column that raises.\<close>

definition validity_issues_of :: "pylib \<Rightarrow> column list \<Rightarrow> error + nat" where
  "validity_issues_of lib cols =
     bind_e (traverse (validity_issues_col lib) cols) (\<lambda>issues. Inr (sum_list issues))"

definition validity_score_of :: "table \<Rightarrow> nat \<Rightarrow> error + real" where
  "validity_score_of df validity_issues' =
     bind_e (py_div (real validity_issues') (real (total_cells df)))
       (\<lambda>q. Inr (max 0 (100 - q * 100)))"

subsection \<open>5. Accuracy\<close>

text \<open>
  The outliers of one column: for a numeric column with more than 10 non-missing values
  and a positive interquartile range, the values below \<open>Q1 - 3 * IQR\<close> or above
  \<open>Q3 + 3 * IQR\<close>.
\<close>

definition outliers :: "pylib \<Rightarrow> coldata \<Rightarrow> nat" where
  "outliers lib d =
     (if is_numeric d then
        (let non_null_values = dropna_num d in
         if length non_null_values > 10 then
           (let Q1 = quantile lib non_null_values (25 / 100);
                Q3 = quantile lib non_null_values (75 / 100);
                IQR = fl_sub Q3 Q1
            in if fl_gt IQR (Fin 0) then
                 (let lower_bound = fl_sub Q1 (fl_mul (Fin 3) IQR);
                      upper_bound = fl_add Q3 (fl_mul (Fin 3) IQR)
                  in length (filter (\<lambda>v. fl_lt v lower_bound \<or> fl_gt v upper_bound)
                       non_null_values))
               else 0)
         else 0)
      else 0)"

definition accuracy_issues_of :: "pylib \<Rightarrow> column list \<Rightarrow> nat" where
  "accuracy_issues_of lib cols = sum_list (map (\<lambda>c. outliers lib (col_data c)) cols)"

definition accuracy_score_of :: "pylib \<Rightarrow> table \<Rightarrow> column list \<Rightarrow> error + real" where
  "accuracy_score_of lib df cols =
     bind_e (py_div (real (accuracy_issues_of lib cols)) (real (total_cells df)))
       (\<lambda>q. Inr (max 0 (100 - q * 50)))"

subsection \<open>6. Timeliness\<close>

text \<open>
  The keywords \<^verbatim>\<open>year\<close> and \<^verbatim>\<open>date\<close> and the four Arabic ones of the source, the
  latter by their code points.
\<close>

definition year_keywords :: "pystr list" where
  "year_keywords =
     [lit ''year'',
      [0x639, 0x627, 0x645],
      [0x633, 0x646, 0x629],
      [0x633, 0x646, 0x647],
      [0x62A, 0x627, 0x631, 0x64A, 0x62E],
      lit ''date'']"

text \<open>\<^verbatim>\<open>col_lower = str(col).lower()\<close> and the test of the keywords.\<close>

definition is_year_column :: "pylib \<Rightarrow> label \<Rightarrow> bool" where
  "is_year_column lib col =
     list_ex (\<lambda>keyword. contains keyword (lower lib (str_label col))) year_keywords"

definition year_like :: "fl list \<Rightarrow> nat" where
  "year_like vs = length (filter (\<lambda>v. fl_ge v (Fin 1900) \<and> fl_le v (Fin 2100)) vs)"

definition old_years_num :: "int \<Rightarrow> fl list \<Rightarrow> nat" where
  "old_years_num current_year vs =
     length (filter (\<lambda>v. fl_lt v (Fin (real_of_int (current_year - 10)))) vs)"

definition old_years_int :: "int \<Rightarrow> int list \<Rightarrow> nat" where
  "old_years_int current_year ys = length (filter (\<lambda>y. y < current_year - 10) ys)"

text \<open>
  The years found in the first 100 values by the pattern; the source keeps a year only if
  it lies in 1900..2100.
\<close>

definition extracted_years :: "pylib \<Rightarrow> pystr list \<Rightarrow> int list" where
  "extracted_years lib sample =
     List.map_filter
       (\<lambda>val. case search_year lib False val of
                 None \<Rightarrow> None
               | Some year_val \<Rightarrow>
                   if 1900 \<le> year_val \<and> year_val \<le> 2100 then Some year_val else None)
       sample"

text \<open>
  The third strategy, on the stringified non-missing values of an object column: what it
  adds to \<^verbatim>\<open>year_columns_found\<close> and to \<^verbatim>\<open>old_years_count\<close>.
\<close>

definition year_pattern_strategy :: "pylib \<Rightarrow> int \<Rightarrow> pystr list \<Rightarrow> nat \<times> nat" where
  "year_pattern_strategy lib current_year non_null_values =
     (let sample = take 100 non_null_values;
          years = extracted_years lib sample;
          year_matches = length years
      in if real year_matches > float_product lib (length sample) (5 / 10)
         then (1, old_years_int current_year years)
         else (0, 0))"

text \<open>
  One column: what it adds to \<^verbatim>\<open>year_columns_found\<close> and to
  \<^verbatim>\<open>old_years_count\<close>. The name-hinted fallback acts on a numeric column only.

  In the second strategy \<^verbatim>\<open>year_columns_found += 1\<close> comes before \<^verbatim>\<open>.dt.year\<close>
  is read: when that raises, the count stays, \<^verbatim>\<open>year_values_found\<close> is still false,
  and the third strategy runs on the same column.
\<close>

definition timeliness_col :: "pylib \<Rightarrow> int \<Rightarrow> column \<Rightarrow> nat \<times> nat" where
  "timeliness_col lib current_year c =
     (case col_data c of
        Object xs \<Rightarrow>
          (let non_null_values = dropna_obj xs in
           if non_null_values = [] then (0, 0)
           else
             (case to_datetime lib non_null_values of
                DtRaises \<Rightarrow> year_pattern_strategy lib current_year non_null_values
              | DtDates parsed_dates \<Rightarrow>
                  (let years = List.map_filter (\<lambda>d. d) parsed_dates in
                   if real (length years) > float_product lib (length non_null_values) (5 / 10)
                   then (1, old_years_int current_year years)
                   else year_pattern_strategy lib current_year non_null_values)
              | DtNotDatetime valid \<Rightarrow>
                  (let (found, old) = year_pattern_strategy lib current_year non_null_values in
                   if real valid > float_product lib (length non_null_values) (5 / 10)
                   then (1 + found, old)
                   else (found, old))))
      | d \<Rightarrow>
          (let non_null_values = dropna_num d in
           if non_null_values = [] then (0, 0)
           else if real (year_like non_null_values)
                     > float_product lib (length non_null_values) (7 / 10)
           then (1, old_years_num current_year non_null_values)
           else if is_year_column lib (col_name c)
                   \<and> real (year_like non_null_values)
                       > float_product lib (length non_null_values) (5 / 10)
           then (1, old_years_num current_year non_null_values)
           else (0, 0)))"

definition year_columns_found_of :: "pylib \<Rightarrow> int \<Rightarrow> column list \<Rightarrow> nat" where
  "year_columns_found_of lib current_year cols =
     sum_list (map (\<lambda>c. fst (timeliness_col lib current_year c)) cols)"

definition old_years_count_of :: "pylib \<Rightarrow> int \<Rightarrow> column list \<Rightarrow> nat" where
  "old_years_count_of lib current_year cols =
     sum_list (map (\<lambda>c. snd (timeliness_col lib current_year c)) cols)"

definition timeliness_score_of :: "pylib \<Rightarrow> int \<Rightarrow> table \<Rightarrow> column list \<Rightarrow> error + real option"
  where
  "timeliness_score_of lib current_year df cols =
     (if year_columns_found_of lib current_year cols > 0 \<and> nrows df > 0
      then bind_e (py_div (real (old_years_count_of lib current_year cols)) (real (nrows df)))
             (\<lambda>q. Inr (Some (max 0 (100 - (q * 100) * (15 / 10)))))
      else Inr None)"

subsection \<open>Column details and the report\<close>

record column_detail =
  cd_name :: label
  cd_type :: pystr
  cd_missing :: nat

definition column_details_of :: "column list \<Rightarrow> column_detail list" where
  "column_details_of cols =
     map (\<lambda>c. \<lparr>cd_name = col_name c, cd_type = dtype_str (col_data c),
               cd_missing = isnull_sum (col_data c)\<rparr>) cols"

record report =
  total_rows :: nat
  total_columns :: nat
  overall_score :: real
  completeness_score :: real
  missing_values :: nat
  missing_percentage :: real
  consistency_score :: real
  consistency_issues :: nat
  type_inconsistencies :: nat
  uniqueness_score :: real
  duplicate_rows :: nat
  duplicate_percentage :: real
  validity_score :: real
  validity_issues :: nat
  accuracy_score :: real
  accuracy_issues :: nat
  timeliness_score :: "real option"
  year_columns_found :: nat
  old_years_count :: nat
  timeliness_applicable :: bool
  column_details :: "column_detail list"

text \<open>
  \<^verbatim>\<open>sum(applicable_scores) / len(applicable_scores) if applicable_scores else 0\<close>
\<close>

definition overall_score_of :: "real list \<Rightarrow> error + real" where
  "overall_score_of applicable_scores =
     (if applicable_scores \<noteq> []
      then py_div (sum_list applicable_scores) (real (length applicable_scores))
      else Inr 0)"

text \<open>
  The function. \<open>current_year\<close> is what \<^verbatim>\<open>datetime.now().year\<close> returns when the
  function reads it (line 180): the system clock is an input of the model.
\<close>

definition assess_data_quality :: "pylib \<Rightarrow> int \<Rightarrow> table \<Rightarrow> error + report" where
  "assess_data_quality lib current_year df =
     bind_e (missing_percentage_of df) (\<lambda>missing_percentage'.
     bind_e (series_of df) (\<lambda>cols.
     bind_e (consistency_score_of lib df cols) (\<lambda>consistency_score'.
     bind_e (duplicate_percentage_of df) (\<lambda>duplicate_percentage'.
     bind_e (uniqueness_score_of df cols) (\<lambda>uniqueness_score'.
     bind_e (validity_issues_of lib cols) (\<lambda>validity_issues'.
     bind_e (validity_score_of df validity_issues') (\<lambda>validity_score'.
     bind_e (accuracy_score_of lib df cols) (\<lambda>accuracy_score'.
     bind_e (timeliness_score_of lib current_year df cols) (\<lambda>timeliness_score'.
     (let completeness_score' = 100 - missing_percentage';
          applicable_scores =
            [completeness_score', consistency_score', uniqueness_score', validity_score',
             accuracy_score']
            @ (case timeliness_score' of None \<Rightarrow> [] | Some t \<Rightarrow> [t])
      in bind_e (overall_score_of applicable_scores) (\<lambda>overall_score'.
         Inr \<lparr>total_rows = nrows df,
              total_columns = length (columns df),
              overall_score = overall_score',
              completeness_score = completeness_score',
              missing_values = missing_values_of df,
              missing_percentage = missing_percentage',
              consistency_score = consistency_score',
              consistency_issues = consistency_issues_of lib cols,
              type_inconsistencies = type_inconsistencies_of lib cols,
              uniqueness_score = uniqueness_score',
              duplicate_rows = duplicate_rows_of df,
              duplicate_percentage = duplicate_percentage',
              validity_score = validity_score',
              validity_issues = validity_issues',
              accuracy_score = accuracy_score',
              accuracy_issues = accuracy_issues_of lib cols,
              timeliness_score = timeliness_score',
              year_columns_found = year_columns_found_of lib current_year cols,
              old_years_count = old_years_count_of lib current_year cols,
              timeliness_applicable = (timeliness_score' \<noteq> None),
              column_details = column_details_of cols\<rparr>)))))))))))"

section \<open>Example inputs\<close>

text \<open>
  A library instance for evaluating the examples. It agrees with Python and pandas on the
  values that occur in the example tables below: none of their strings is a number or a
  date, \<open>quantile\<close> is the linear interpolation between the two nearest ranks, as
  pandas computes it for finite values, and the exact product compares with the counts of
  the examples as the float product does. The examples hold no character outside ASCII,
  so the three Unicode parameters are never consulted.
\<close>

fun finite_values :: "fl list \<Rightarrow> real list option" where
  "finite_values [] = Some []"
| "finite_values (Fin x # vs) = map_option ((#) x) (finite_values vs)"
| "finite_values (_ # vs) = None"

definition linear_quantile :: "fl list \<Rightarrow> real \<Rightarrow> fl" where
  "linear_quantile vs q =
     (case finite_values vs of
        None \<Rightarrow> NaN
      | Some xs \<Rightarrow>
          (if xs = [] then NaN
           else (let sorted_xs = sort xs;
                     h = real (length xs - 1) * q;
                     lo = nat \<lfloor>h\<rfloor>;
                     hi = min (lo + 1) (length xs - 1)
                 in Fin (sorted_xs ! lo + (sorted_xs ! hi - sorted_xs ! lo) * (h - real lo)))))"

definition example_lib :: pylib where
  "example_lib =
     \<lparr>float_parses = (\<lambda>s. s \<noteq> [] \<and> list_all is_digit s),
      to_datetime = (\<lambda>ss. DtDates (map (\<lambda>s. None) ss)),
      quantile = linear_quantile,
      str_float = (\<lambda>v. case v of Fin x \<Rightarrow> str_int \<lfloor>x\<rfloor> @ lit ''.0'' | PInf \<Rightarrow> lit ''inf''
                          | NInf \<Rightarrow> lit ''-inf'' | NaN \<Rightarrow> lit ''nan''),
      float_product = (\<lambda>n c. real n * c),
      unicode_lower = (\<lambda>s. s),
      unicode_word = (\<lambda>c. True),
      unicode_digit = (\<lambda>c. None)\<rparr>"

text \<open>Scenario A of the specification: two rows, an \<^verbatim>\<open>age\<close> and a \<^verbatim>\<open>name\<close>.\<close>

definition scenario_A :: table where
  "scenario_A =
     \<lparr>nrows = 2,
      columns = [\<lparr>col_name = StrLabel (lit ''age''), col_data = Int64 [- 5, 30]\<rparr>,
                 \<lparr>col_name = StrLabel (lit ''name''),
                  col_data = Object [Str (lit ''Bob''), Str (lit ''Alice'')]\<rparr>]\<rparr>"


text \<open>Scenario C: a column of years.\<close>

definition scenario_C :: table where
  "scenario_C =
     \<lparr>nrows = 4,
      columns = [\<lparr>col_name = StrLabel (lit ''year''),
                  col_data = Int64 [2024, 2023, 2010, 1995]\<rparr>]\<rparr>"

text \<open>A frame whose two columns carry the same label.\<close>

definition repeated_label :: table where
  "repeated_label =
     \<lparr>nrows = 1,
      columns = [\<lparr>col_name = StrLabel (lit ''a''), col_data = Int64 [1]\<rparr>,
                 \<lparr>col_name = StrLabel (lit ''a''), col_data = Int64 [2]\<rparr>]\<rparr>"

text \<open>
  The frame that \<^verbatim>\<open>load_data\<close> builds from the JSON file \<^verbatim>\<open>[[1, 2], [3, 4]]\<close>:
  \<^verbatim>\<open>pd.DataFrame(data)\<close> labels the columns of a list of lists 0 and 1.
\<close>

definition integer_labels :: table where
  "integer_labels =
     \<lparr>nrows = 2,
      columns = [\<lparr>col_name = IntLabel 0, col_data = Int64 [1, 3]\<rparr>,
                 \<lparr>col_name = IntLabel 1, col_data = Int64 [2, 4]\<rparr>]\<rparr>"

text \<open>A frame with a missing cell in two of its three columns.\<close>

definition with_missing_cells :: table where
  "with_missing_cells =
     \<lparr>nrows = 2,
      columns = [\<lparr>col_name = StrLabel (lit ''a''), col_data = Float64 [Fin 1, NaN]\<rparr>,
                 \<lparr>col_name = StrLabel (lit ''b''), col_data = Object [PyNone, Str (lit ''x'')]\<rparr>,
                 \<lparr>col_name = StrLabel (lit ''c''), col_data = Int64 [1, 2]\<rparr>]\<rparr>"




text \<open>A float column and an object column with no value at all, in two rows.\<close>

definition empty_floats :: column where
  "empty_floats = \<lparr>col_name = StrLabel (lit ''age''), col_data = Float64 [NaN, NaN]\<rparr>"

definition empty_notes :: column where
  "empty_notes = \<lparr>col_name = StrLabel (lit ''notes''), col_data = Object [PyNone, PyNone]\<rparr>"

section \<open>Notions used by the properties\<close>

text \<open>
  Duplicating every row: the frame followed by a copy of itself, as
  \<^verbatim>\<open>pd.concat([df, df])\<close> builds it.
\<close>

fun twice :: "coldata \<Rightarrow> coldata" where
  "twice (Int64 xs) = Int64 (xs @ xs)"
| "twice (Float64 xs) = Float64 (xs @ xs)"
| "twice (Object xs) = Object (xs @ xs)"

definition duplicate_every_row :: "table \<Rightarrow> table" where
  "duplicate_every_row df =
     \<lparr>nrows = 2 * nrows df,
      columns = map (\<lambda>c. \<lparr>col_name = col_name c, col_data = twice (col_data c)\<rparr>) (columns df)\<rparr>"

text \<open>
  The language of a regular expression: the strings that the pattern denotes, against
  which the matcher is checked.
\<close>

inductive_set star :: "pystr set \<Rightarrow> pystr set" for A :: "pystr set" where
  star_nil: "[] \<in> star A"
| star_step: "u \<in> A \<Longrightarrow> v \<in> star A \<Longrightarrow> u @ v \<in> star A"

fun lang :: "rx \<Rightarrow> pystr set" where
  "lang Nul = {}"
| "lang Eps = {[]}"
| "lang (Atom p) = {[c] |c. p c}"
| "lang (Alt r s) = lang r \<union> lang s"
| "lang (Seq r s) = {u @ v |u v. u \<in> lang r \<and> v \<in> lang s}"
| "lang (Star r) = star (lang r)"

text \<open>A column all of whose cells are missing.\<close>

definition all_missing :: "coldata \<Rightarrow> bool" where
  "all_missing d = (isnull_sum d = col_len d)"

text \<open>A column on which line 142 reads \<^verbatim>\<open>col.lower()\<close> of an integer label.\<close>

definition lowers_integer_label :: "column \<Rightarrow> bool" where
  "lowers_integer_label c =
     (is_numeric (col_data c) \<and> dropna_num (col_data c) \<noteq> []
      \<and> (case col_name c of IntLabel i \<Rightarrow> True | StrLabel s \<Rightarrow> False))"

text \<open>
  A report with the three fields cleared that are computed from the current year: the
  count of old years, the timeliness score and the overall score.
\<close>

definition without_clock :: "report \<Rightarrow> report" where
  "without_clock r = r\<lparr>overall_score := 0, timeliness_score := None, old_years_count := 0\<rparr>"

section \<open>Properties\<close>

subsection \<open>Every analyzer returns\<close>

lemma total_cells_pos: "0 < total_cells df"
  by (simp add: total_cells_def)

lemma bind_e_Inr: "bind_e (Inr x) f = f x"
  by (simp add: bind_e_def)

lemma py_div_total_cells:
  "py_div a (real (total_cells df)) = Inr (a / real (total_cells df))"
  using total_cells_pos [of df] by (simp add: py_div_def)

lemma missing_percentage_of_eq:
  "missing_percentage_of df = Inr (real (missing_values_of df) / real (total_cells df) * 100)"
  by (simp add: missing_percentage_of_def py_div_total_cells bind_e_Inr)

lemma consistency_score_of_eq:
  "consistency_score_of lib df cols =
     Inr (max 0 (100 - real (consistency_issues_of lib cols) / real (total_cells df) * 100
                 - real (type_inconsistencies_of lib cols) * 10))"
  by (simp add: consistency_score_of_def py_div_total_cells bind_e_Inr)

lemma duplicate_percentage_of_eq:
  "duplicate_percentage_of df =
     Inr (if nrows df > 0 then real (duplicate_rows_of df) / real (nrows df) * 100 else 0)"
  by (simp add: duplicate_percentage_of_def py_div_def bind_e_Inr)

lemma uniqueness_score_of_eq:
  "uniqueness_score_of df cols =
     Inr (max 0 (100
                 - (if nrows df > 0 then real (duplicate_rows_of df) / real (nrows df) * 100
                    else 0)
                 - real (duplicate_values_count_of cols) / real (total_cells df) * 50))"
  by (simp add: uniqueness_score_of_def duplicate_percentage_of_eq py_div_total_cells bind_e_Inr)

lemma validity_score_of_eq:
  "validity_score_of df n = Inr (max 0 (100 - real n / real (total_cells df) * 100))"
  by (simp add: validity_score_of_def py_div_total_cells bind_e_Inr)

lemma accuracy_score_of_eq:
  "accuracy_score_of lib df cols =
     Inr (max 0 (100 - real (accuracy_issues_of lib cols) / real (total_cells df) * 50))"
  by (simp add: accuracy_score_of_def py_div_total_cells bind_e_Inr)

lemma timeliness_score_of_eq:
  "timeliness_score_of lib y df cols =
     Inr (if year_columns_found_of lib y cols > 0 \<and> nrows df > 0
          then Some (max 0 (100 - (real (old_years_count_of lib y cols) / real (nrows df) * 100)
                                  * (15 / 10)))
          else None)"
  by (simp add: timeliness_score_of_def py_div_def bind_e_Inr)

lemmas analyzer_eqs =
  missing_percentage_of_eq consistency_score_of_eq duplicate_percentage_of_eq
  uniqueness_score_of_eq validity_score_of_eq accuracy_score_of_eq timeliness_score_of_eq

subsection \<open>Reading the columns\<close>

lemma traverse_Inr_length: "traverse f xs = Inr ys \<Longrightarrow> length ys = length xs"
  by (induction xs arbitrary: ys) (auto split: sum.splits)

lemma traverse_Inr_nth:
  "traverse f xs = Inr ys \<Longrightarrow> i < length xs \<Longrightarrow> f (xs ! i) = Inr (ys ! i)"
proof (induction xs arbitrary: ys i)
  case Nil
  then show ?case by simp
next
  case (Cons x xs)
  then show ?case by (cases i) (auto split: sum.splits)
qed

lemma traverse_map_Inr:
  "(\<And>x. x \<in> set xs \<Longrightarrow> f (h x) = Inr x) \<Longrightarrow> traverse f (map h xs) = Inr xs"
  by (induction xs) auto

lemma getitem_Inr_mem:
  assumes "getitem df n = Inr c" and "c' \<in> set (columns df)" and "col_name c' = n"
  shows "c' = c"
proof -
  have "filter (\<lambda>c. col_name c = n) (columns df) = [c]"
    using assms(1) by (auto simp: getitem_def split: list.splits)
  moreover have "c' \<in> set (filter (\<lambda>c. col_name c = n) (columns df))"
    using assms(2,3) by simp
  ultimately show ?thesis by simp
qed

text \<open>When every lookup succeeds, the Series are the columns of the frame.\<close>

lemma series_of_Inr:
  assumes "series_of df = Inr cols"
  shows "cols = columns df"
proof (rule nth_equalityI)
  show len: "length cols = length (columns df)"
    using traverse_Inr_length [OF assms [unfolded series_of_def]] by simp
  fix i assume "i < length cols"
  with len have i: "i < length (columns df)" by simp
  then have "getitem df (col_name (columns df ! i)) = Inr (cols ! i)"
    using traverse_Inr_nth [OF assms [unfolded series_of_def], of i] by simp
  from getitem_Inr_mem [OF this, of "columns df ! i"] i
  show "cols ! i = columns df ! i" by simp
qed

lemma filter_key_distinct:
  "distinct (map f xs) \<Longrightarrow> x \<in> set xs \<Longrightarrow> filter (\<lambda>y. f y = f x) xs = [x]"
proof (induction xs)
  case Nil
  then show ?case by simp
next
  case (Cons a as)
  show ?case
  proof (cases "a = x")
    case True
    with Cons.prems have "\<forall>y\<in>set as. f y \<noteq> f x" by (auto simp: image_iff)
    then have "filter (\<lambda>y. f y = f x) as = []" by (simp add: filter_empty_conv)
    with True show ?thesis by simp
  next
    case False
    with Cons.prems have "x \<in> set as" and "f a \<noteq> f x" by (auto simp: image_iff)
    with Cons show ?thesis by simp
  qed
qed

lemma series_of_distinct:
  assumes "distinct (map col_name (columns df))"
  shows "series_of df = Inr (columns df)"
  unfolding series_of_def
proof (rule traverse_map_Inr)
  fix c assume "c \<in> set (columns df)"
  from filter_key_distinct [OF assms this]
  show "getitem df (col_name c) = Inr c" by (simp add: getitem_def)
qed

subsection \<open>The report, field by field\<close>

lemma overall_score_of_five:
  "overall_score_of [a, b, c, d, e] = Inr ((a + b + c + d + e) / 5)"
  by (simp add: overall_score_of_def py_div_def)

lemma overall_score_of_six:
  "overall_score_of [a, b, c, d, e, t] = Inr ((a + b + c + d + e + t) / 6)"
  by (simp add: overall_score_of_def py_div_def)

lemma assess_reads_columns:
  assumes "assess_data_quality lib y df = Inr r"
  shows "series_of df = Inr (columns df)"
proof -
  obtain cols where cols: "series_of df = Inr cols"
    using assms unfolding assess_data_quality_def
    by (cases "series_of df") (simp_all add: analyzer_eqs bind_e_def)
  then have "cols = columns df" by (rule series_of_Inr)
  with cols show ?thesis by simp
qed

lemma assess_validity_returns:
  assumes "assess_data_quality lib y df = Inr r"
  shows "\<exists>n. validity_issues_of lib (columns df) = Inr n"
  using assms
  unfolding assess_data_quality_def assess_reads_columns [OF assms] analyzer_eqs bind_e_Inr
  by (cases "validity_issues_of lib (columns df)") (simp_all add: bind_e_def)

lemma assess_data_quality_Inr:
  assumes "assess_data_quality lib y df = Inr r"
  shows "total_rows r = nrows df"
    and "total_columns r = length (columns df)"
    and "missing_values r = missing_values_of df"
    and "completeness_score r = 100 - real (missing_values_of df) / real (total_cells df) * 100"
    and "consistency_issues r = consistency_issues_of lib (columns df)"
    and "type_inconsistencies r = type_inconsistencies_of lib (columns df)"
    and "consistency_score r =
           max 0 (100 - real (consistency_issues_of lib (columns df)) / real (total_cells df) * 100
                  - real (type_inconsistencies_of lib (columns df)) * 10)"
    and "duplicate_rows r = duplicate_rows_of df"
    and "uniqueness_score r =
           max 0 (100
                  - (if nrows df > 0 then real (duplicate_rows_of df) / real (nrows df) * 100
                     else 0)
                  - real (duplicate_values_count_of (columns df)) / real (total_cells df) * 50)"
    and "validity_issues_of lib (columns df) = Inr (validity_issues r)"
    and "validity_score r =
           max 0 (100 - real (validity_issues r) / real (total_cells df) * 100)"
    and "accuracy_issues r = accuracy_issues_of lib (columns df)"
    and "accuracy_score r =
           max 0 (100 - real (accuracy_issues_of lib (columns df)) / real (total_cells df) * 50)"
    and "year_columns_found r = year_columns_found_of lib y (columns df)"
    and "old_years_count r = old_years_count_of lib y (columns df)"
    and "timeliness_score r =
           (if year_columns_found_of lib y (columns df) > 0 \<and> nrows df > 0
            then Some (max 0 (100 - (real (old_years_count_of lib y (columns df))
                                       / real (nrows df) * 100) * (15 / 10)))
            else None)"
    and "timeliness_applicable r = (timeliness_score r \<noteq> None)"
    and "column_details r = column_details_of (columns df)"
proof -
  obtain n where n: "validity_issues_of lib (columns df) = Inr n"
    using assess_validity_returns [OF assms] by blast
  note a = assms [unfolded assess_data_quality_def assess_reads_columns [OF assms] n
      analyzer_eqs bind_e_Inr]
  from a show "total_rows r = nrows df"
    and "total_columns r = length (columns df)"
    and "missing_values r = missing_values_of df"
    and "completeness_score r = 100 - real (missing_values_of df) / real (total_cells df) * 100"
    and "consistency_issues r = consistency_issues_of lib (columns df)"
    and "type_inconsistencies r = type_inconsistencies_of lib (columns df)"
    and "consistency_score r =
           max 0 (100 - real (consistency_issues_of lib (columns df)) / real (total_cells df) * 100
                  - real (type_inconsistencies_of lib (columns df)) * 10)"
    and "duplicate_rows r = duplicate_rows_of df"
    and "uniqueness_score r =
           max 0 (100
                  - (if nrows df > 0 then real (duplicate_rows_of df) / real (nrows df) * 100
                     else 0)
                  - real (duplicate_values_count_of (columns df)) / real (total_cells df) * 50)"
    and "validity_issues_of lib (columns df) = Inr (validity_issues r)"
    and "validity_score r =
           max 0 (100 - real (validity_issues r) / real (total_cells df) * 100)"
    and "accuracy_issues r = accuracy_issues_of lib (columns df)"
    and "accuracy_score r =
           max 0 (100 - real (accuracy_issues_of lib (columns df)) / real (total_cells df) * 50)"
    and "year_columns_found r = year_columns_found_of lib y (columns df)"
    and "old_years_count r = old_years_count_of lib y (columns df)"
    and "timeliness_score r =
           (if year_columns_found_of lib y (columns df) > 0 \<and> nrows df > 0
            then Some (max 0 (100 - (real (old_years_count_of lib y (columns df))
                                       / real (nrows df) * 100) * (15 / 10)))
            else None)"
    and "timeliness_applicable r = (timeliness_score r \<noteq> None)"
    and "column_details r = column_details_of (columns df)"
    unfolding n
    by (auto simp add: Let_def overall_score_of_five overall_score_of_six bind_e_Inr
        split: if_splits)
qed

lemma assess_overall_score:
  assumes "assess_data_quality lib y df = Inr r"
  shows "overall_score r =
           (case timeliness_score r of
              None \<Rightarrow> (completeness_score r + consistency_score r + uniqueness_score r
                        + validity_score r + accuracy_score r) / 5
            | Some t \<Rightarrow> (completeness_score r + consistency_score r + uniqueness_score r
                          + validity_score r + accuracy_score r + t) / 6)"
proof -
  obtain n where n: "validity_issues_of lib (columns df) = Inr n"
    using assess_validity_returns [OF assms] by blast
  show ?thesis
    using assms
    unfolding assess_data_quality_def assess_reads_columns [OF assms] n analyzer_eqs bind_e_Inr
    by (auto simp add: Let_def overall_score_of_five overall_score_of_six bind_e_Inr
        split: if_splits)
qed

subsection \<open>The label that line 142 lowers\<close>

lemma validity_issues_col_Inl:
  "validity_issues_col lib c = Inl e \<longleftrightarrow> lowers_integer_label c \<and> e = AttributeError"
  by (cases "col_data c"; cases "col_name c")
    (auto simp: validity_issues_col_def lowers_integer_label_def Let_def bind_e_def)

lemma validity_issues_col_Inr:
  "\<not> lowers_integer_label c \<Longrightarrow> \<exists>n. validity_issues_col lib c = Inr n"
  using validity_issues_col_Inl [of lib c] by (cases "validity_issues_col lib c") auto

lemma traverse_returns:
  "(\<And>x. x \<in> set xs \<Longrightarrow> \<exists>y. f x = Inr y) \<Longrightarrow> \<exists>ys. traverse f xs = Inr ys"
proof (induction xs)
  case Nil
  show ?case by simp
next
  case (Cons x xs)
  then obtain y ys where "f x = Inr y" and "traverse f xs = Inr ys"
    by (metis list.set_intros(1) list.set_intros(2))
  then show ?case by simp
qed

lemma traverse_Inr_each:
  "traverse f xs = Inr ys \<Longrightarrow> x \<in> set xs \<Longrightarrow> \<exists>y. f x = Inr y"
  by (induction xs arbitrary: ys) (auto split: sum.splits)

lemma validity_issues_of_returns:
  assumes "list_all (\<lambda>c. \<not> lowers_integer_label c) cols"
  shows "\<exists>n. validity_issues_of lib cols = Inr n"
proof -
  have "\<exists>ns. traverse (validity_issues_col lib) cols = Inr ns"
    using assms by (intro traverse_returns validity_issues_col_Inr) (simp add: list_all_iff)
  then show ?thesis by (auto simp: validity_issues_of_def bind_e_Inr)
qed

lemma validity_issues_of_Inr:
  assumes "validity_issues_of lib cols = Inr n"
  shows "list_all (\<lambda>c. \<not> lowers_integer_label c) cols"
    and "\<exists>ns. traverse (validity_issues_col lib) cols = Inr ns \<and> n = sum_list ns"
proof -
  from assms obtain ns where ns: "traverse (validity_issues_col lib) cols = Inr ns"
    and n: "n = sum_list ns"
    by (cases "traverse (validity_issues_col lib) cols")
      (auto simp: validity_issues_of_def bind_e_def)
  then show "\<exists>ns. traverse (validity_issues_col lib) cols = Inr ns \<and> n = sum_list ns"
    by blast
  have "\<not> lowers_integer_label c" if "c \<in> set cols" for c
    using traverse_Inr_each [OF ns that] validity_issues_col_Inl [of lib c AttributeError]
    by auto
  then show "list_all (\<lambda>c. \<not> lowers_integer_label c) cols"
    by (simp add: list_all_iff)
qed

text \<open>
  With pairwise distinct labels, and no integer label on a numeric column that has a
  value, the function returns.
\<close>

lemma assess_data_quality_returns:
  assumes "distinct (map col_name (columns df))"
    and "list_all (\<lambda>c. \<not> lowers_integer_label c) (columns df)"
  shows "\<exists>r. assess_data_quality lib y df = Inr r"
proof -
  obtain n where n: "validity_issues_of lib (columns df) = Inr n"
    using validity_issues_of_returns [OF assms(2)] by blast
  show ?thesis
    unfolding assess_data_quality_def series_of_distinct [OF assms(1)] n analyzer_eqs bind_e_Inr
    by (simp add: Let_def overall_score_of_five overall_score_of_six bind_e_Inr
        split: option.splits)
qed

subsection \<open>Missing cells\<close>

lemma isnull_sum_le: "isnull_sum d \<le> col_len d"
  by (cases d) simp_all

lemma sum_list_map_le:
  "(\<And>x. x \<in> set xs \<Longrightarrow> f x \<le> (n::nat)) \<Longrightarrow> sum_list (map f xs) \<le> length xs * n"
proof (induction xs)
  case Nil
  then show ?case by simp
next
  case (Cons x xs)
  then have "f x \<le> n" and "sum_list (map f xs) \<le> length xs * n" by simp_all
  then show ?case by simp
qed

lemma missing_values_le_cells:
  assumes "wf_table df"
  shows "missing_values_of df \<le> total_cells df"
proof -
  have "isnull_sum (col_data c) \<le> nrows df" if "c \<in> set (columns df)" for c
  proof -
    from assms that have "col_len (col_data c) = nrows df"
      by (simp add: wf_table_def list_all_iff)
    with isnull_sum_le [of "col_data c"] show ?thesis by simp
  qed
  then have le: "missing_values_of df \<le> length (columns df) * nrows df"
    unfolding missing_values_of_def by (rule sum_list_map_le)
  show ?thesis
  proof (cases "nrows df * length (columns df) > 0")
    case True
    with le show ?thesis by (simp add: total_cells_def mult.commute)
  next
    case False
    with le have "missing_values_of df = 0" by (auto simp: mult.commute)
    then show ?thesis by (simp add: total_cells_def)
  qed
qed

text \<open>
  C10: the \<^verbatim>\<open>missing_values\<close> field of a report is the sum of the \<^verbatim>\<open>missing\<close>
  counts of its \<^verbatim>\<open>column_details\<close> entries.
\<close>

theorem missing_values_sum_of_column_details:
  assumes "assess_data_quality lib current_year df = Inr r"
  shows "missing_values r = sum_list (map cd_missing (column_details r))"
  using assess_data_quality_Inr(3,18) [OF assms]
  by (simp add: missing_values_of_def column_details_of_def comp_def)

text \<open>
  C2: \<^verbatim>\<open>overall_score\<close> is the arithmetic mean of the five scores completeness,
  consistency, uniqueness, validity and accuracy when \<^verbatim>\<open>timeliness_score\<close> is null,
  and the mean of those five and \<^verbatim>\<open>timeliness_score\<close> when it is not.
\<close>

theorem overall_score_is_mean:
  assumes "assess_data_quality lib current_year df = Inr r"
  shows "(timeliness_score r = None \<longrightarrow>
            overall_score r =
              (completeness_score r + consistency_score r + uniqueness_score r
               + validity_score r + accuracy_score r) / 5)
       \<and> (\<forall>t. timeliness_score r = Some t \<longrightarrow>
            overall_score r =
              (completeness_score r + consistency_score r + uniqueness_score r
               + validity_score r + accuracy_score r + t) / 6)"
  using assess_overall_score [OF assms] by (simp split: option.splits)

subsection \<open>The examples, evaluated\<close>

lemmas char_class_defs =
  lit_def is_ascii_def is_upper_def is_lower_def is_digit_def is_alpha_def is_word_def
  decimal_digit_def lower_char_def lower_def

lemmas timeliness_defs =
  year_columns_found_of_def old_years_count_of_def timeliness_col_def year_like_def
  old_years_num_def old_years_int_def year_pattern_strategy_def extracted_years_def
  is_year_column_def year_keywords_def dropna_obj_def fl_ge_def fl_le_def
  List.map_filter_def

lemma scenario_C_timeliness:
  "year_columns_found_of example_lib 2025 (columns scenario_C) = 1"
  "old_years_count_of example_lib 2025 (columns scenario_C) = 2"
  "year_columns_found_of example_lib 2035 (columns scenario_C) = 1"
  "old_years_count_of example_lib 2035 (columns scenario_C) = 4"
  by (simp_all add: scenario_C_def timeliness_defs example_lib_def)

lemma scenario_A_timeliness:
  "year_columns_found_of example_lib y (columns scenario_A) = 0"
  by (simp add: scenario_A_def timeliness_defs example_lib_def char_class_defs)

lemma scenario_A_returns: "\<exists>r. assess_data_quality lib y scenario_A = Inr r"
  by (rule assess_data_quality_returns)
    (simp_all add: scenario_A_def lowers_integer_label_def lit_def)

lemma scenario_C_returns: "\<exists>r. assess_data_quality lib y scenario_C = Inr r"
  by (rule assess_data_quality_returns)
    (simp_all add: scenario_C_def lowers_integer_label_def)

lemma with_missing_cells_returns: "\<exists>r. assess_data_quality lib y with_missing_cells = Inr r"
  by (rule assess_data_quality_returns)
    (simp_all add: with_missing_cells_def lowers_integer_label_def lit_def)

theorem missing_values_sum_of_column_details_witness:
  "\<exists>r. assess_data_quality example_lib 2025 with_missing_cells = Inr r
       \<and> missing_values r = 2
       \<and> map cd_missing (column_details r) = [1, 1, 0]
       \<and> missing_values r = sum_list (map cd_missing (column_details r))"
proof -
  obtain r where r: "assess_data_quality example_lib 2025 with_missing_cells = Inr r"
    using with_missing_cells_returns by blast
  have "map cd_missing (column_details r) = [1, 1, 0]"
    using assess_data_quality_Inr(18) [OF r]
    by (simp add: column_details_of_def with_missing_cells_def)
  with missing_values_sum_of_column_details [OF r] r show ?thesis by simp
qed

theorem overall_score_is_mean_witness:
  "(\<exists>r. assess_data_quality example_lib 2025 scenario_A = Inr r
        \<and> timeliness_score r = None
        \<and> overall_score r =
            (completeness_score r + consistency_score r + uniqueness_score r
             + validity_score r + accuracy_score r) / 5)
 \<and> (\<exists>r. assess_data_quality example_lib 2025 scenario_C = Inr r
        \<and> timeliness_score r = Some 25
        \<and> overall_score r =
            (completeness_score r + consistency_score r + uniqueness_score r
             + validity_score r + accuracy_score r + 25) / 6)"
proof
  obtain r where r: "assess_data_quality example_lib 2025 scenario_A = Inr r"
    using scenario_A_returns by blast
  have "timeliness_score r = None"
    using assess_data_quality_Inr(16) [OF r] by (simp add: scenario_A_timeliness)
  with overall_score_is_mean [OF r] r
  show "\<exists>r. assess_data_quality example_lib 2025 scenario_A = Inr r
        \<and> timeliness_score r = None
        \<and> overall_score r =
            (completeness_score r + consistency_score r + uniqueness_score r
             + validity_score r + accuracy_score r) / 5"
    by blast
next
  obtain r where r: "assess_data_quality example_lib 2025 scenario_C = Inr r"
    using scenario_C_returns by blast
  have "timeliness_score r = Some 25"
    using assess_data_quality_Inr(16) [OF r]
    by (simp add: scenario_C_timeliness) (simp add: scenario_C_def)
  with overall_score_is_mean [OF r] r
  show "\<exists>r. assess_data_quality example_lib 2025 scenario_C = Inr r
        \<and> timeliness_score r = Some 25
        \<and> overall_score r =
            (completeness_score r + consistency_score r + uniqueness_score r
             + validity_score r + accuracy_score r + 25) / 6"
    by blast
qed

text \<open>
  C3: \<^verbatim>\<open>timeliness_score\<close> is null exactly when \<^verbatim>\<open>year_columns_found\<close> is 0 or the
  table has no rows; then \<^verbatim>\<open>timeliness_applicable\<close> is false and the overall score is
  the mean of the other five scores. Otherwise
  \<^verbatim>\<open>timeliness_score = max(0, 100 - 1.5 * (100 * old_years_count / total_rows))\<close>.
\<close>

theorem timeliness_null_iff:
  assumes "assess_data_quality lib current_year df = Inr r"
  shows "(timeliness_score r = None \<longleftrightarrow> year_columns_found r = 0 \<or> total_rows r = 0)
       \<and> (timeliness_applicable r \<longleftrightarrow> timeliness_score r \<noteq> None)
       \<and> (timeliness_score r = None \<longrightarrow>
            overall_score r =
              (completeness_score r + consistency_score r + uniqueness_score r
               + validity_score r + accuracy_score r) / 5)
       \<and> (\<not> (year_columns_found r = 0 \<or> total_rows r = 0) \<longrightarrow>
            timeliness_score r =
              Some (max 0 (100 - 15 / 10 * (100 * real (old_years_count r) / real (total_rows r)))))"
proof -
  note f = assess_data_quality_Inr [OF assms]
  have "timeliness_score r = None \<longleftrightarrow> year_columns_found r = 0 \<or> total_rows r = 0"
    by (simp add: f(1,14,16))
  moreover have "timeliness_applicable r \<longleftrightarrow> timeliness_score r \<noteq> None"
    by (rule f(17))
  moreover have "timeliness_score r = None \<longrightarrow>
            overall_score r =
              (completeness_score r + consistency_score r + uniqueness_score r
               + validity_score r + accuracy_score r) / 5"
    using assess_overall_score [OF assms] by (simp split: option.splits)
  moreover have "\<not> (year_columns_found r = 0 \<or> total_rows r = 0) \<longrightarrow>
            timeliness_score r =
              Some (max 0 (100 - 15 / 10 * (100 * real (old_years_count r) / real (total_rows r))))"
    by (simp add: f(1,14,15,16))
  ultimately show ?thesis by blast
qed

theorem timeliness_null_iff_witness:
  "(\<exists>r. assess_data_quality example_lib 2025 scenario_A = Inr r
        \<and> year_columns_found r = 0 \<and> timeliness_score r = None
        \<and> \<not> timeliness_applicable r)
 \<and> (\<exists>r. assess_data_quality example_lib 2025 scenario_C = Inr r
        \<and> year_columns_found r = 1 \<and> old_years_count r = 2 \<and> total_rows r = 4
        \<and> timeliness_score r = Some 25 \<and> timeliness_applicable r)"
proof
  obtain r where r: "assess_data_quality example_lib 2025 scenario_A = Inr r"
    using scenario_A_returns by blast
  have "year_columns_found r = 0"
    using assess_data_quality_Inr(14) [OF r] by (simp add: scenario_A_timeliness)
  with timeliness_null_iff [OF r] r
  show "\<exists>r. assess_data_quality example_lib 2025 scenario_A = Inr r
        \<and> year_columns_found r = 0 \<and> timeliness_score r = None
        \<and> \<not> timeliness_applicable r"
    by blast
next
  obtain r where r: "assess_data_quality example_lib 2025 scenario_C = Inr r"
    using scenario_C_returns by blast
  have c: "year_columns_found r = 1" "old_years_count r = 2" "total_rows r = 4"
    using assess_data_quality_Inr(1,14,15) [OF r]
    by (simp_all add: scenario_C_timeliness) (simp add: scenario_C_def)
  with timeliness_null_iff [OF r]
  have "timeliness_score r = Some 25" "timeliness_applicable r" by simp_all
  with c r
  show "\<exists>r. assess_data_quality example_lib 2025 scenario_C = Inr r
        \<and> year_columns_found r = 1 \<and> old_years_count r = 2 \<and> total_rows r = 4
        \<and> timeliness_score r = Some 25 \<and> timeliness_applicable r"
    by blast
qed

text \<open>
  C1: every dimension score of a report lies between 0 and 100:
  \<^verbatim>\<open>completeness_score\<close>, \<^verbatim>\<open>consistency_score\<close>, \<^verbatim>\<open>uniqueness_score\<close>,
  \<^verbatim>\<open>validity_score\<close>, \<^verbatim>\<open>accuracy_score\<close>, and \<^verbatim>\<open>timeliness_score\<close> when it is
  not null.
\<close>

lemma clamp_score:
  "0 \<le> a \<Longrightarrow> 0 \<le> max 0 (100 - a) \<and> max 0 (100 - a) \<le> (100::real)"
  by simp

lemma clamp_score2:
  "0 \<le> a \<Longrightarrow> 0 \<le> b \<Longrightarrow> 0 \<le> max 0 (100 - a - b) \<and> max 0 (100 - a - b) \<le> (100::real)"
  by simp

theorem scores_in_range:
  assumes "wf_table df" and "assess_data_quality lib current_year df = Inr r"
  shows "0 \<le> completeness_score r \<and> completeness_score r \<le> 100
       \<and> 0 \<le> consistency_score r \<and> consistency_score r \<le> 100
       \<and> 0 \<le> uniqueness_score r \<and> uniqueness_score r \<le> 100
       \<and> 0 \<le> validity_score r \<and> validity_score r \<le> 100
       \<and> 0 \<le> accuracy_score r \<and> accuracy_score r \<le> 100
       \<and> (\<forall>t. timeliness_score r = Some t \<longrightarrow> 0 \<le> t \<and> t \<le> 100)"
proof -
  note f = assess_data_quality_Inr [OF assms(2)]
  have pos: "0 < real (total_cells df)"
    using total_cells_pos [of df] by simp
  have "real (missing_values_of df) \<le> real (total_cells df)"
    using missing_values_le_cells [OF assms(1)] by simp
  with pos have completeness: "0 \<le> completeness_score r \<and> completeness_score r \<le> 100"
    unfolding f(4) by (simp add: field_simps)
  have consistency: "0 \<le> consistency_score r \<and> consistency_score r \<le> 100"
    unfolding f(7) by (rule clamp_score2) simp_all
  have uniqueness: "0 \<le> uniqueness_score r \<and> uniqueness_score r \<le> 100"
    unfolding f(9) by (rule clamp_score2) simp_all
  have validity: "0 \<le> validity_score r \<and> validity_score r \<le> 100"
    unfolding f(11) by (rule clamp_score) simp
  have accuracy: "0 \<le> accuracy_score r \<and> accuracy_score r \<le> 100"
    unfolding f(13) by (rule clamp_score) simp
  have timeliness: "\<forall>t. timeliness_score r = Some t \<longrightarrow> 0 \<le> t \<and> t \<le> 100"
    unfolding f(16) by (auto split: if_splits)
  from completeness consistency uniqueness validity accuracy timeliness
  show ?thesis by blast
qed

theorem scores_in_range_witness:
  "wf_table scenario_C
 \<and> (\<exists>r. assess_data_quality example_lib 2025 scenario_C = Inr r
        \<and> 0 \<le> completeness_score r \<and> completeness_score r \<le> 100
        \<and> 0 \<le> consistency_score r \<and> consistency_score r \<le> 100
        \<and> 0 \<le> uniqueness_score r \<and> uniqueness_score r \<le> 100
        \<and> 0 \<le> validity_score r \<and> validity_score r \<le> 100
        \<and> 0 \<le> accuracy_score r \<and> accuracy_score r \<le> 100
        \<and> timeliness_score r = Some 25)"
proof -
  have wf: "wf_table scenario_C"
    by (simp add: wf_table_def scenario_C_def)
  obtain r where r: "assess_data_quality example_lib 2025 scenario_C = Inr r"
    using scenario_C_returns by blast
  have "timeliness_score r = Some 25"
    using assess_data_quality_Inr(16) [OF r]
    by (simp add: scenario_C_timeliness) (simp add: scenario_C_def)
  with scores_in_range [OF wf r] wf r show ?thesis by blast
qed

subsection \<open>The clock\<close>

lemma year_columns_found_clock:
  "fst (timeliness_col lib y1 c) = fst (timeliness_col lib y2 c)"
  by (simp add: timeliness_col_def year_pattern_strategy_def Let_def
      split: coldata.splits dt_result.splits prod.splits)

lemma year_columns_found_of_clock:
  "year_columns_found_of lib y1 cols = year_columns_found_of lib y2 cols"
  unfolding year_columns_found_of_def
  by (rule arg_cong [where f = sum_list]) (simp add: year_columns_found_clock [of lib y1 _ y2])

text \<open>
  C4, as the code has it: the report is a function of the table and of the current year
  that the function reads from the system clock. Two runs on the same table in
  different years return the same error, or two reports that agree on every field but
  \<^verbatim>\<open>old_years_count\<close>, \<^verbatim>\<open>timeliness_score\<close> and \<^verbatim>\<open>overall_score\<close>.
\<close>

theorem report_depends_on_clock_in_three_fields:
  "map_sum id without_clock (assess_data_quality lib y1 df)
     = map_sum id without_clock (assess_data_quality lib y2 df)"
proof (cases "series_of df")
  case (Inl e)
  then show ?thesis
    by (simp add: assess_data_quality_def analyzer_eqs bind_e_def)
next
  case cols: (Inr cols)
  show ?thesis
  proof (cases "validity_issues_of lib cols")
    case (Inl e)
    then show ?thesis
      by (simp add: assess_data_quality_def cols analyzer_eqs bind_e_def)
  next
    case (Inr n)
    show ?thesis
      unfolding assess_data_quality_def cols Inr analyzer_eqs bind_e_Inr
        year_columns_found_of_clock [of lib y1 cols y2]
      by (simp add: Let_def overall_score_of_five overall_score_of_six bind_e_Inr
          without_clock_def)
  qed
qed

text \<open>
  C4, as the specification states it, fails: the same table assessed in 2025 and in
  2035 gives two different reports.
\<close>

theorem report_depends_on_clock:
  "assess_data_quality example_lib 2025 scenario_C
     \<noteq> assess_data_quality example_lib 2035 scenario_C"
proof
  assume eq: "assess_data_quality example_lib 2025 scenario_C
     = assess_data_quality example_lib 2035 scenario_C"
  obtain r where r: "assess_data_quality example_lib 2025 scenario_C = Inr r"
    using scenario_C_returns by blast
  with eq have r': "assess_data_quality example_lib 2035 scenario_C = Inr r" by simp
  have "old_years_count r = 2"
    using assess_data_quality_Inr(15) [OF r] by (simp add: scenario_C_timeliness)
  moreover have "old_years_count r = 4"
    using assess_data_quality_Inr(15) [OF r'] by (simp add: scenario_C_timeliness)
  ultimately show False by simp
qed

subsection \<open>Validity\<close>


lemma scenario_A_total_cells: "total_cells scenario_A = 4"
  by (simp add: scenario_A_def total_cells_def)



subsection \<open>Accuracy\<close>



subsection \<open>The email check\<close>



lemma nullable_lang: "nullable r \<longleftrightarrow> [] \<in> lang r"
  by (induction r) (auto intro: star_nil)

lemma star_cons_split:
  "x \<in> star A \<Longrightarrow> x = c # w \<Longrightarrow> \<exists>u v. w = u @ v \<and> c # u \<in> A \<and> v \<in> star A"
proof (induction arbitrary: c w rule: star.induct)
  case star_nil
  then show ?case by simp
next
  case (star_step u v)
  show ?case
  proof (cases u)
    case Nil
    with star_step.prems have "v = c # w" by simp
    then show ?thesis by (rule star_step.IH)
  next
    case (Cons a u')
    with star_step.prems have "c = a" and "w = u' @ v" by simp_all
    with Cons star_step.hyps show ?thesis by blast
  qed
qed

lemma star_cons:
  "c # w \<in> star A \<longleftrightarrow> (\<exists>u v. w = u @ v \<and> c # u \<in> A \<and> v \<in> star A)"
proof
  assume "c # w \<in> star A"
  then show "\<exists>u v. w = u @ v \<and> c # u \<in> A \<and> v \<in> star A"
    by (rule star_cons_split) simp
next
  assume "\<exists>u v. w = u @ v \<and> c # u \<in> A \<and> v \<in> star A"
  then obtain u v where "w = u @ v" and "c # u \<in> A" and "v \<in> star A" by blast
  then show "c # w \<in> star A"
    using star_step [of "c # u" A v] by simp
qed

lemma lang_atom_seq:
  "w \<in> lang (Seq (Atom p) r) \<longleftrightarrow> (\<exists>c v. w = c # v \<and> p c \<and> v \<in> lang r)"
proof
  assume "w \<in> lang (Seq (Atom p) r)"
  then obtain u v where "w = u @ v" and "u \<in> lang (Atom p)" and "v \<in> lang r" by auto
  then show "\<exists>c v. w = c # v \<and> p c \<and> v \<in> lang r" by auto
next
  assume "\<exists>c v. w = c # v \<and> p c \<and> v \<in> lang r"
  then obtain c v where "w = [c] @ v" and "p c" and "v \<in> lang r" by auto
  then have "[c] \<in> lang (Atom p)" by simp
  with \<open>w = [c] @ v\<close> \<open>v \<in> lang r\<close> show "w \<in> lang (Seq (Atom p) r)"
    unfolding lang.simps by blast
qed

lemma deriv_lang: "w \<in> lang (deriv c r) \<longleftrightarrow> c # w \<in> lang r"
proof (induction r arbitrary: w)
  case (Seq r s)
  show ?case
  proof (cases "nullable r")
    case True
    then have "[] \<in> lang r" by (simp add: nullable_lang)
    with Seq show ?thesis
      using True by (auto simp: Cons_eq_append_conv)
  next
    case False
    then have "[] \<notin> lang r" by (simp add: nullable_lang)
    with Seq show ?thesis
      using False by (auto simp: Cons_eq_append_conv)
  qed
next
  case (Star r)
  then show ?case by (auto simp: star_cons)
qed auto

lemma derivs_lang: "w \<in> lang (derivs s r) \<longleftrightarrow> s @ w \<in> lang r"
  by (induction s arbitrary: r) (simp_all add: deriv_lang)

text \<open>The matcher decides membership in the language of the expression.\<close>

lemma matches_lang: "matches r s \<longleftrightarrow> s \<in> lang r"
  using derivs_lang [of "[]" s r] by (simp add: matches_def nullable_lang)

lemma star_atoms: "w \<in> star {[c] |c. p c} \<longleftrightarrow> list_all p w"
proof
  assume "w \<in> star {[c] |c. p c}"
  then show "list_all p w"
    by (induction rule: star.induct) auto
next
  assume "list_all p w"
  then show "w \<in> star {[c] |c. p c}"
  proof (induction w)
    case Nil
    show ?case by (rule star_nil)
  next
    case (Cons c w)
    then have "[c] \<in> {[c] |c. p c}" and "w \<in> star {[c] |c. p c}" by simp_all
    then have "[c] @ w \<in> star {[c] |c. p c}" by (rule star_step)
    then show ?case by simp
  qed
qed

lemma lang_star_atom: "w \<in> lang (Star (Atom p)) \<longleftrightarrow> list_all p w"
  by (simp add: star_atoms)

lemma lang_one_or_more_atom: "w \<in> lang (one_or_more (Atom p)) \<longleftrightarrow> w \<noteq> [] \<and> list_all p w"
  unfolding one_or_more_def lang_atom_seq lang_star_atom by (cases w) auto

lemma lang_two_or_more_atom:
  "w \<in> lang (two_or_more (Atom p)) \<longleftrightarrow> 2 \<le> length w \<and> list_all p w"
proof (cases w)
  case Nil
  then show ?thesis unfolding two_or_more_def lang_atom_seq by simp
next
  case (Cons a w')
  then show ?thesis
    unfolding two_or_more_def lang_atom_seq lang_star_atom by (cases w') auto
qed

text \<open>
  What the email pattern accepts: a non-empty local part of the first class, an
  \<^verbatim>\<open>@\<close>, a non-empty domain of the second class, a dot, and at least two letters.
\<close>

lemma matches_email_pattern:
  "matches email_pattern s \<longleftrightarrow>
     (\<exists>l d t. s = l @ lit ''@'' @ d @ lit ''.'' @ t
        \<and> l \<noteq> [] \<and> list_all local_class l
        \<and> d \<noteq> [] \<and> list_all domain_class d
        \<and> 2 \<le> length t \<and> list_all is_alpha t)"
proof -
  have "s \<in> lang email_pattern \<longleftrightarrow>
     (\<exists>l r1. s = l @ r1 \<and> l \<in> lang (one_or_more (Atom local_class))
        \<and> (\<exists>a r2. r1 = a @ r2 \<and> a = lit ''@''
             \<and> (\<exists>d r3. r2 = d @ r3 \<and> d \<in> lang (one_or_more (Atom domain_class))
                  \<and> (\<exists>b t. r3 = b @ t \<and> b = lit ''.''
                       \<and> t \<in> lang (two_or_more (Atom is_alpha))))))"
    unfolding email_pattern_def lit_def by (simp only: lang.simps list.map) blast
  also have "\<dots> \<longleftrightarrow>
     (\<exists>l d t. s = l @ lit ''@'' @ d @ lit ''.'' @ t
        \<and> l \<noteq> [] \<and> list_all local_class l
        \<and> d \<noteq> [] \<and> list_all domain_class d
        \<and> 2 \<le> length t \<and> list_all is_alpha t)"
    unfolding lang_one_or_more_atom lang_two_or_more_atom by blast
  finally show ?thesis by (simp only: matches_lang)
qed



subsection \<open>Duplicates\<close>

lemma card_diff_seen:
  "card (set (x # xs) - set seen)
     = (if x \<in> set seen then card (set xs - set (x # seen))
        else Suc (card (set xs - set (x # seen))))"
proof (cases "x \<in> set seen")
  case True
  then have "set (x # xs) - set seen = set xs - set (x # seen)" by auto
  then have "card (set (x # xs) - set seen) = card (set xs - set (x # seen))"
    by (rule arg_cong)
  with True show ?thesis by (simp only: if_True)
next
  case False
  then have "set (x # xs) - set seen = insert x (set xs - set (x # seen))" by auto
  then have "card (set (x # xs) - set seen) = card (insert x (set xs - set (x # seen)))"
    by (rule arg_cong)
  also have "\<dots> = Suc (card (set xs - set (x # seen)))"
    by (rule card_insert_disjoint) simp_all
  finally show ?thesis using False by (simp only: if_False)
qed

lemma duplicated_count:
  "length (filter (\<lambda>b. b) (duplicated seen xs)) + card (set xs - set seen) = length xs"
proof (induction xs arbitrary: seen)
  case Nil
  show ?case by simp
next
  case (Cons x xs)
  define c where "c = length (filter (\<lambda>b. b) (duplicated (x # seen) xs))"
  define k where "k = card (set xs - set (x # seen))"
  have ih: "c + k = length xs"
    unfolding c_def k_def by (rule Cons.IH)
  have l: "length (filter (\<lambda>b. b) (duplicated seen (x # xs)))
             = (if x \<in> set seen then Suc c else c)"
    by (simp add: c_def)
  have "length (filter (\<lambda>b. b) (duplicated seen (x # xs))) + card (set (x # xs) - set seen)
          = Suc (c + k)"
    unfolding l card_diff_seen k_def [symmetric] by (simp only: split: if_split) simp
  with ih show ?case by (simp only: length_Cons)
qed

lemma duplicated_sum_card: "duplicated_sum xs + card (set xs) = length xs"
  using duplicated_count [of "[]" xs] by (simp add: duplicated_sum_def)

lemma duplicated_sum_twice: "duplicated_sum (xs @ xs) = duplicated_sum xs + length xs"
proof -
  have "duplicated_sum (xs @ xs) + card (set xs) = length xs + length xs"
    using duplicated_sum_card [of "xs @ xs"] by simp
  with duplicated_sum_card [of xs] show ?thesis by linarith
qed
lemma cells_twice: "cells (twice d) = cells d @ cells d"
  by (cases d) simp_all

lemma length_cells: "length (cells d) = col_len d"
  by (cases d) simp_all

lemma columns_duplicate_every_row:
  "columns (duplicate_every_row df)
     = map (\<lambda>c. \<lparr>col_name = col_name c, col_data = twice (col_data c)\<rparr>) (columns df)"
  by (simp add: duplicate_every_row_def)

lemma upt_twice: "[0..<2 * n] = [0..<n] @ map (\<lambda>i. i + n) [0..<n]"
proof -
  have "[0..<n + n] = [0..<n] @ [n..<n + n]"
    by (rule upt_add_eq_append) simp
  moreover have "map (\<lambda>i. i + n) [0..<n] = [n..<n + n]"
    by (rule map_add_upt)
  ultimately show ?thesis by (simp only: mult_2)
qed

lemma nrows_duplicate_every_row: "nrows (duplicate_every_row df) = 2 * nrows df"
  by (simp add: duplicate_every_row_def)

lemma row_cells_twice:
  "row_cells (duplicate_every_row df) (twice d) = row_cells df d @ row_cells df d"
  by (simp add: row_cells_def duplicate_every_row_def cells_twice)

lemma length_row_cells: "length (row_cells df d) = col_len d"
  by (simp add: row_cells_def length_cells)

lemma rows_duplicate_every_row:
  assumes "wf_table df"
  shows "rows (duplicate_every_row df) = rows df @ rows df"
proof (cases "columns df = []")
  case True
  then show ?thesis by (simp add: rows_def duplicate_every_row_def)
next
  case False
  define n where "n = nrows df"
  define row where "row = (\<lambda>i. map (\<lambda>c. row_cells df (col_data c) ! i) (columns df))"
  define row2 where
    "row2 = (\<lambda>i. map (\<lambda>c. (row_cells df (col_data c) @ row_cells df (col_data c)) ! i)
                    (columns df))"
  have len: "length (row_cells df (col_data c)) = n" if "c \<in> set (columns df)" for c
    using assms that by (simp add: wf_table_def list_all_iff length_row_cells n_def)
  have low: "row2 i = row i" if "i < n" for i
    unfolding row2_def row_def using that len by (simp add: nth_append)
  have high: "row2 (i + n) = row i" for i
    unfolding row2_def row_def using len by (simp add: nth_append)
  have "columns (duplicate_every_row df) \<noteq> []"
    using False by (simp add: duplicate_every_row_def)
  then have "rows (duplicate_every_row df)
      = map (\<lambda>i. map (\<lambda>c. row_cells (duplicate_every_row df) (col_data c) ! i)
                    (columns (duplicate_every_row df))) [0..<nrows (duplicate_every_row df)]"
    by (simp only: rows_def if_False)
  also have "\<dots> = map row2 [0..<2 * n]"
    unfolding row2_def n_def columns_duplicate_every_row nrows_duplicate_every_row
    by (simp add: row_cells_twice comp_def)
  also have "\<dots> = map row2 [0..<n] @ map (\<lambda>i. row2 (i + n)) [0..<n]"
    by (simp only: upt_twice map_append map_map comp_def)
  also have "map row2 [0..<n] = map row [0..<n]"
    using low by simp
  also have "map (\<lambda>i. row2 (i + n)) [0..<n] = map row [0..<n]"
    by (simp only: high)
  also have "map row [0..<n] = rows df"
    unfolding row_def n_def using False by (simp add: rows_def)
  finally show ?thesis .
qed

lemma duplicate_rows_of_twice:
  assumes "wf_table df"
  shows "duplicate_rows_of (duplicate_every_row df) = duplicate_rows_of df + length (rows df)"
  by (simp add: duplicate_rows_of_def rows_duplicate_every_row [OF assms] duplicated_sum_twice)

lemma column_duplicates_twice: "column_duplicates d \<le> column_duplicates (twice d)"
  by (cases d) (simp_all add: duplicated_sum_twice)

lemma duplicate_values_count_of_twice:
  "duplicate_values_count_of (columns df)
     \<le> duplicate_values_count_of (columns (duplicate_every_row df))"
  unfolding duplicate_values_count_of_def columns_duplicate_every_row
  by (simp add: comp_def sum_list_mono column_duplicates_twice)

lemma uniqueness_halves:
  fixes d n v v' t :: real
  assumes "0 < n" and "0 < t" and "v \<le> v'"
  shows "max 0 (100 - (d + n) / (2 * n) * 100 - v' / (2 * t) * 50)
           \<le> max 0 (100 - d / n * 100 - v / t * 50)"
proof -
  define a where "a = d / n"
  define b where "b = v / t"
  define b' where "b' = v' / t"
  have e1: "(d + n) / (2 * n) = 1 / 2 + a / 2"
    using assms(1) by (simp add: a_def field_simps)
  have e2: "v' / (2 * t) = b' / 2"
    by (simp add: b'_def)
  have le: "b \<le> b'"
    using assms(2,3) by (simp add: b_def b'_def divide_right_mono)
  have "max 0 (100 - (1 / 2 + a / 2) * 100 - b' / 2 * 50) \<le> max 0 (100 - a * 100 - b * 50)"
    using le by (simp add: max_def)
  then show ?thesis
    unfolding e1 e2 a_def b_def .
qed

lemma filter_two:
  assumes "i < j" and "j < length xs" and "P (xs ! i)" and "P (xs ! j)"
  shows "2 \<le> length (filter P xs)"
proof -
  have "xs ! i \<in> set (take j xs)"
    using assms(1,2) by (auto simp: in_set_conv_nth intro!: exI [of _ i])
  with assms(3) have a: "filter P (take j xs) \<noteq> []"
    by (auto simp: filter_empty_conv)
  have "xs ! j \<in> set (drop j xs)"
    using assms(2) by (auto simp: in_set_conv_nth intro!: exI [of _ 0])
  with assms(4) have b: "filter P (drop j xs) \<noteq> []"
    by (auto simp: filter_empty_conv)
  have "filter P xs = filter P (take j xs) @ filter P (drop j xs)"
    by (simp only: filter_append [symmetric] append_take_drop_id)
  then have "length (filter P xs)
      = length (filter P (take j xs)) + length (filter P (drop j xs))"
    by simp
  moreover from a have "1 \<le> length (filter P (take j xs))"
    by (cases "filter P (take j xs)") simp_all
  moreover from b have "1 \<le> length (filter P (drop j xs))"
    by (cases "filter P (drop j xs)") simp_all
  ultimately show ?thesis by linarith
qed

text \<open>The lookups all succeed only if no label is repeated.\<close>

lemma series_of_Inr_distinct:
  assumes "series_of df = Inr cols"
  shows "distinct (map col_name (columns df))"
proof -
  have one: "length (filter (\<lambda>c. col_name c = col_name (columns df ! i)) (columns df)) = 1"
    if "i < length (columns df)" for i
  proof -
    from that have "getitem df (col_name (columns df ! i)) = Inr (cols ! i)"
      using traverse_Inr_nth [OF assms [unfolded series_of_def], of i] by simp
    then show ?thesis
      by (auto simp: getitem_def split: list.splits)
  qed
  have "col_name (columns df ! i) \<noteq> col_name (columns df ! j)"
    if "i < j" and "j < length (columns df)" for i j
  proof
    assume eq: "col_name (columns df ! i) = col_name (columns df ! j)"
    have "2 \<le> length (filter (\<lambda>c. col_name c = col_name (columns df ! i)) (columns df))"
      using that eq by (intro filter_two [of i j]) simp_all
    moreover from that have "i < length (columns df)" by simp
    ultimately show False using one [of i] by simp
  qed
  then have "map col_name (columns df) ! i \<noteq> map col_name (columns df) ! j"
    if "i < j" and "j < length (map col_name (columns df))" for i j
    using that by simp
  then show ?thesis
    unfolding distinct_conv_nth
    by (metis linorder_neqE_nat)
qed

lemma assess_distinct_labels:
  assumes "assess_data_quality lib y df = Inr r"
  shows "distinct (map col_name (columns df))"
  using series_of_Inr_distinct [OF assess_reads_columns [OF assms]] .

lemma labels_duplicate_every_row:
  "map col_name (columns (duplicate_every_row df)) = map col_name (columns df)"
  by (simp add: duplicate_every_row_def comp_def)

lemma dropna_num_twice: "dropna_num (twice d) = dropna_num d @ dropna_num d"
  by (cases d) simp_all

lemma lowers_integer_label_twice:
  "lowers_integer_label \<lparr>col_name = col_name c, col_data = twice (col_data c)\<rparr>
     \<longleftrightarrow> lowers_integer_label c"
  by (cases "col_data c") (simp_all add: lowers_integer_label_def)

lemma length_rows: "columns df \<noteq> [] \<Longrightarrow> length (rows df) = nrows df"
  by (simp add: rows_def)

lemma rows_no_columns: "columns df = [] \<Longrightarrow> rows df = []"
  by (simp add: rows_def)

lemma rows_no_rows: "nrows df = 0 \<Longrightarrow> rows df = []"
  by (simp add: rows_def)

text \<open>
  C6: duplicating every row of a table never raises its \<^verbatim>\<open>uniqueness_score\<close>: the
  score of the doubled table is at most the score of the table.
\<close>

theorem duplicating_rows_never_raises_uniqueness:
  assumes "wf_table df" and "assess_data_quality lib current_year df = Inr r"
  shows "\<exists>r'. assess_data_quality lib current_year (duplicate_every_row df) = Inr r'
            \<and> uniqueness_score r' \<le> uniqueness_score r"
proof -
  let ?df' = "duplicate_every_row df"
  define n where "n = nrows df"
  define d where "d = duplicate_rows_of df"
  define d' where "d' = duplicate_rows_of ?df'"
  define v where "v = duplicate_values_count_of (columns df)"
  define v' where "v' = duplicate_values_count_of (columns ?df')"
  define t where "t = total_cells df"
  define t' where "t' = total_cells ?df'"
  have "distinct (map col_name (columns ?df'))"
    unfolding labels_duplicate_every_row using assms(2) by (rule assess_distinct_labels)
  moreover have "list_all (\<lambda>c. \<not> lowers_integer_label c) (columns ?df')"
    using validity_issues_of_Inr(1) [OF assess_data_quality_Inr(10) [OF assms(2)]]
    by (simp add: columns_duplicate_every_row list_all_iff lowers_integer_label_twice)
  ultimately obtain r' where r': "assess_data_quality lib current_year ?df' = Inr r'"
    using assess_data_quality_returns by blast
  have n': "nrows ?df' = 2 * n"
    by (simp add: duplicate_every_row_def n_def)
  have s: "uniqueness_score r
      = max 0 (100 - (if n > 0 then real d / real n * 100 else 0) - real v / real t * 50)"
    unfolding n_def d_def v_def t_def by (rule assess_data_quality_Inr(9) [OF assms(2)])
  have s': "uniqueness_score r'
      = max 0 (100 - (if 2 * n > 0 then real d' / real (2 * n) * 100 else 0)
               - real v' / real t' * 50)"
    unfolding d'_def v'_def t'_def n' [symmetric] by (rule assess_data_quality_Inr(9) [OF r'])
  have vv: "v \<le> v'"
    unfolding v_def v'_def by (rule duplicate_values_count_of_twice)
  have dd: "d' = d + length (rows df)"
    unfolding d_def d'_def by (rule duplicate_rows_of_twice [OF assms(1)])
  have tpos: "0 < t"
    unfolding t_def by (rule total_cells_pos)
  have "uniqueness_score r' \<le> uniqueness_score r"
  proof (cases "n > 0 \<and> columns df \<noteq> []")
    case True
    then have "length (rows df) = n" by (simp add: length_rows n_def)
    with dd have d'_eq: "real d' = real d + real n" by simp
    from True have "t = n * length (columns df)" "t' = 2 * (n * length (columns df))"
      by (simp_all add: t_def t'_def total_cells_def duplicate_every_row_def n_def)
    then have t'_eq: "real t' = 2 * real t" by simp
    have "max 0 (100 - (real d + real n) / (2 * real n) * 100 - real v' / (2 * real t) * 50)
            \<le> max 0 (100 - real d / real n * 100 - real v / real t * 50)"
      using True tpos vv by (intro uniqueness_halves) simp_all
    moreover have "real (2 * n) = 2 * real n" by simp
    ultimately show ?thesis
      using True unfolding s s' d'_eq t'_eq by simp
  next
    case False
    then have norows: "rows df = []"
      using rows_no_columns [of df] rows_no_rows [of df] by (auto simp: n_def)
    with dd have d'_eq: "d' = d" by simp
    from norows have d0: "d = 0"
      by (simp add: d_def duplicate_rows_of_def duplicated_sum_def)
    from False have tt: "t = 1" "t' = 1"
      by (auto simp: t_def t'_def total_cells_def duplicate_every_row_def n_def)
    have "real v \<le> real v'" using vv by simp
    then show ?thesis
      unfolding s s' d'_eq d0 tt by (simp add: max_def) 
  qed
  with r' show ?thesis by blast
qed

lemma scenario_A_uniqueness:
  "duplicate_rows_of scenario_A = 0"
  "duplicate_values_count_of (columns scenario_A) = 0"
  "duplicate_rows_of (duplicate_every_row scenario_A) = 2"
  "duplicate_values_count_of (columns (duplicate_every_row scenario_A)) = 2"
  "total_cells (duplicate_every_row scenario_A) = 8"
  "nrows (duplicate_every_row scenario_A) = 4"
  by (simp_all add: scenario_A_def duplicate_every_row_def duplicate_rows_of_def rows_def
      row_cells_def duplicate_values_count_of_def duplicated_sum_def total_cells_def
      upt_conv_Cons lit_def)

theorem duplicating_rows_never_raises_uniqueness_witness:
  "wf_table scenario_A
 \<and> (\<exists>r r'. assess_data_quality example_lib 2025 scenario_A = Inr r
        \<and> assess_data_quality example_lib 2025 (duplicate_every_row scenario_A) = Inr r'
        \<and> uniqueness_score r = 100 \<and> uniqueness_score r' = 75 / 2
        \<and> uniqueness_score r' \<le> uniqueness_score r)"
proof -
  have wf: "wf_table scenario_A"
    by (simp add: wf_table_def scenario_A_def)
  obtain r where r: "assess_data_quality example_lib 2025 scenario_A = Inr r"
    using scenario_A_returns by blast
  from duplicating_rows_never_raises_uniqueness [OF wf r]
  obtain r' where r': "assess_data_quality example_lib 2025 (duplicate_every_row scenario_A) = Inr r'"
    and le: "uniqueness_score r' \<le> uniqueness_score r"
    by blast
  have "uniqueness_score r = 100"
    using assess_data_quality_Inr(9) [OF r]
    by (simp add: scenario_A_uniqueness scenario_A_total_cells)
  moreover have "uniqueness_score r' = 75 / 2"
    using assess_data_quality_Inr(9) [OF r']
    by (simp add: scenario_A_uniqueness)
  ultimately show ?thesis using wf r r' le by blast
qed

subsection \<open>Totality\<close>

lemma filter_all_none:
  "length (filter P xs) = length xs \<Longrightarrow> filter (\<lambda>x. \<not> P x) xs = []"
  using sum_length_filter_compl [of P xs] by simp

lemma all_missing_dropna_num: "all_missing d \<Longrightarrow> dropna_num d = []"
  by (cases d) (auto simp: all_missing_def dest: filter_all_none)

lemma map_filter_obj_text: "(\<And>x. x \<in> set xs \<Longrightarrow> is_missing x) \<Longrightarrow> List.map_filter obj_text xs = []"
proof (induction xs)
  case Nil
  show ?case by (simp add: List.map_filter_def)
next
  case (Cons x xs)
  then have "is_missing x" and "List.map_filter obj_text xs = []" by simp_all
  then show ?case by (cases x) (simp_all add: List.map_filter_def)
qed

lemma all_missing_dropna_obj:
  assumes "all_missing (Object xs)"
  shows "dropna_obj xs = []"
proof -
  from assms have "filter (\<lambda>x. \<not> is_missing x) xs = []"
    by (auto simp: all_missing_def dest: filter_all_none)
  then have "is_missing x" if "x \<in> set xs" for x
    using that by (auto simp: filter_empty_conv)
  then show ?thesis
    unfolding dropna_obj_def by (rule map_filter_obj_text)
qed

lemma all_missing_dropna_str: "all_missing d \<Longrightarrow> dropna_str lib d = []"
  by (cases d) (auto simp: all_missing_dropna_obj all_missing_def dest: filter_all_none)

text \<open>
  A column all of whose values are missing adds nothing to the email check, the mixed-type
  check, the validity issues, the outliers and the year columns.
\<close>

lemma all_missing_checks:
  assumes "all_missing (col_data c)"
  shows "invalid_emails lib (col_data c) = 0"
    and "\<not> type_inconsistent lib (col_data c)"
    and "validity_issues_col lib c = Inr 0"
    and "outliers lib (col_data c) = 0"
    and "timeliness_col lib y c = (0, 0)"
proof -
  note num = all_missing_dropna_num [OF assms]
  note str = all_missing_dropna_str [OF assms]
  have obj: "dropna_obj xs = []" if "col_data c = Object xs" for xs
    using assms that all_missing_dropna_obj by simp
  show "invalid_emails lib (col_data c) = 0"
    by (simp add: invalid_emails_def str)
  show "\<not> type_inconsistent lib (col_data c)"
    by (cases "col_data c") (simp_all add: type_inconsistent_def obj)
  show "validity_issues_col lib c = Inr 0"
    using num by (cases "col_data c") (simp_all add: validity_issues_col_def obj)
  show "outliers lib (col_data c) = 0"
    by (simp add: outliers_def num)
  show "timeliness_col lib y c = (0, 0)"
    using num by (cases "col_data c") (simp_all add: timeliness_col_def obj)
qed

text \<open>
  The cell count that divides is at least 1, and it is 1 for a table with no row or no
  column.
\<close>

lemma total_cells_floor:
  "1 \<le> total_cells df" and "nrows df = 0 \<or> columns df = [] \<Longrightarrow> total_cells df = 1"
  using total_cells_pos [of df] by (auto simp: total_cells_def)

text \<open>
  By its design the function also raises on a frame with a repeated column label:
  \<^verbatim>\<open>df[col]\<close> is then a DataFrame and has no \<^verbatim>\<open>dtype\<close>.
\<close>

lemma assess_raises_on_repeated_label:
  "assess_data_quality lib y repeated_label = Inl AttributeError"
proof -
  have "series_of repeated_label = Inl AttributeError"
    by (simp add: series_of_def getitem_def repeated_label_def)
  then show ?thesis
    by (simp add: assess_data_quality_def analyzer_eqs bind_e_def)
qed

text \<open>
  The column check of the uniqueness analyzer does not skip missing values: an object
  column with no value in two rows counts one duplicate.
\<close>

lemma all_missing_object_duplicates:
  "all_missing (col_data empty_notes)" and "column_duplicates (col_data empty_notes) = 1"
  by (simp_all add: all_missing_def empty_notes_def duplicated_sum_def)

text \<open>
  C7: \<^verbatim>\<open>assess_data_quality\<close> is to return a report for every well-formed table. It
  does not for the frame that \<^verbatim>\<open>load_data\<close> builds from the JSON file
  \<^verbatim>\<open>[[1, 2], [3, 4]]\<close>, whose columns are labelled 0 and 1: the validity analyzer
  calls \<^verbatim>\<open>col.lower()\<close> on the label (line 142), where the timeliness analyzer calls
  \<^verbatim>\<open>str(col).lower()\<close> (line 183), and raises \<^verbatim>\<open>AttributeError\<close>.
\<close>

theorem assess_raises_on_integer_labels:
  "assess_data_quality lib current_year integer_labels = Inl AttributeError"
proof -
  have "distinct (map col_name (columns integer_labels))"
    by (simp add: integer_labels_def)
  then have cols: "series_of integer_labels = Inr (columns integer_labels)"
    by (rule series_of_distinct)
  have "validity_issues_col lib \<lparr>col_name = IntLabel 0, col_data = Int64 [1, 3]\<rparr>
          = Inl AttributeError"
    by (simp add: validity_issues_col_def bind_e_def)
  then have "validity_issues_of lib (columns integer_labels) = Inl AttributeError"
    by (simp add: validity_issues_of_def integer_labels_def bind_e_def)
  then show ?thesis
    unfolding assess_data_quality_def cols analyzer_eqs bind_e_Inr
    by (simp add: bind_e_def)
qed

text \<open>
  On the same frame with the labels as text, \<^verbatim>\<open>'0'\<close> and \<^verbatim>\<open>'1'\<close>, the function
  returns a report.
\<close>

lemma assess_returns_on_text_labels:
  "\<exists>r. assess_data_quality lib current_year
          \<lparr>nrows = 2,
           columns = [\<lparr>col_name = StrLabel (lit ''0''), col_data = Int64 [1, 3]\<rparr>,
                      \<lparr>col_name = StrLabel (lit ''1''), col_data = Int64 [2, 4]\<rparr>]\<rparr> = Inr r"
  by (rule assess_data_quality_returns) (simp_all add: lowers_integer_label_def lit_def)

end
